theory Spec2Isabelle
  imports Main "HOL-Library.Word"
begin

section \<open>The persistent store\<close>

text \<open>
  \<^verbatim>\<open>EEPROM.begin(512)\<close> gives the sketch a buffer of 512 bytes. The store is the list of
  its cells. The accessors are those of the ESP32 EEPROM class: a write outside the
  buffer is dropped and a read outside the buffer yields 0. \<^verbatim>\<open>EEPROM.commit()\<close> only
  copies the buffer to flash and prints a line; it never changes what later reads of the
  same session return, so it has no counterpart here.
\<close>

type_synonym byte = "8 word"
type_synonym eeprom = "byte list"

definition EEPROM_size :: nat where
  "EEPROM_size = 512"

definition wf_eeprom :: "eeprom \<Rightarrow> bool" where
  "wf_eeprom mem \<longleftrightarrow> length mem = EEPROM_size"

definition EEPROM_write :: "nat \<Rightarrow> byte \<Rightarrow> eeprom \<Rightarrow> eeprom" where
  "EEPROM_write a v mem = (if a < length mem then mem[a := v] else mem)"

definition EEPROM_read :: "nat \<Rightarrow> eeprom \<Rightarrow> byte" where
  "EEPROM_read a mem = (if a < length mem then mem ! a else 0)"

text \<open>A \<^verbatim>\<open>char\<close> and a \<^verbatim>\<open>uint8_t\<close> hold the same eight bits.\<close>

definition byte_of_char :: "char \<Rightarrow> byte" where
  "byte_of_char c = of_nat (of_char c)"

definition char_of_byte :: "byte \<Rightarrow> char" where
  "char_of_byte b = char_of (unat b)"

text \<open>\<^verbatim>\<open>strToWrite[i]\<close>: the String class answers 0 for an index past the end.\<close>

definition charAt :: "string \<Rightarrow> nat \<Rightarrow> char" where
  "charAt s i = (if i < length s then s ! i else CHR 0x00)"

text \<open>\<^verbatim>\<open>String(data)\<close> for a \<^verbatim>\<open>char*\<close>: the characters before the first NUL.\<close>

definition String_cstr :: "char list \<Rightarrow> string" where
  "String_cstr data = takeWhile (\<lambda>c. c \<noteq> CHR 0x00) data"

text \<open>
  \<^verbatim>\<open>writeStringToEEPROM\<close>: \<^verbatim>\<open>byte len = strToWrite.length()\<close> keeps the low eight bits
  of the length; the loop then writes \<^verbatim>\<open>len\<close> characters after the length cell.
\<close>

function write_loop :: "nat \<Rightarrow> string \<Rightarrow> nat \<Rightarrow> nat \<Rightarrow> eeprom \<Rightarrow> eeprom" where
  "write_loop addrOffset strToWrite len i mem =
     (if i < len
      then write_loop addrOffset strToWrite len (i + 1)
             (EEPROM_write (addrOffset + 1 + i) (byte_of_char (charAt strToWrite i)) mem)
      else mem)"
  by pat_completeness auto
termination
  by (relation "measure (\<lambda>(addrOffset, strToWrite, len, i, mem). len - i)") auto

declare write_loop.simps [simp del]

definition writeStringToEEPROM :: "nat \<Rightarrow> string \<Rightarrow> eeprom \<Rightarrow> eeprom" where
  "writeStringToEEPROM addrOffset strToWrite mem =
     (let len = (of_nat (length strToWrite) :: byte)
      in write_loop addrOffset strToWrite (unat len) 0 (EEPROM_write addrOffset len mem))"

text \<open>
  \<^verbatim>\<open>readStringFromEEPROM\<close>: the loop fills \<^verbatim>\<open>data[0..newStrLen-1]\<close> in index order, the
  terminating NUL follows, and the result is the C string in \<^verbatim>\<open>data\<close>.
\<close>

function read_loop :: "nat \<Rightarrow> nat \<Rightarrow> nat \<Rightarrow> eeprom \<Rightarrow> char list \<Rightarrow> char list" where
  "read_loop addrOffset newStrLen i mem data =
     (if i < newStrLen
      then read_loop addrOffset newStrLen (i + 1) mem
             (data @ [char_of_byte (EEPROM_read (addrOffset + 1 + i) mem)])
      else data)"
  by pat_completeness auto
termination
  by (relation "measure (\<lambda>(addrOffset, newStrLen, i, mem, data). newStrLen - i)") auto

declare read_loop.simps [simp del]

definition readStringFromEEPROM :: "nat \<Rightarrow> eeprom \<Rightarrow> string" where
  "readStringFromEEPROM addrOffset mem =
     (let newStrLen = unat (EEPROM_read addrOffset mem)
      in String_cstr (read_loop addrOffset newStrLen 0 mem [] @ [CHR 0x00]))"

section \<open>The String class\<close>

text \<open>
  The members of the Arduino \<^verbatim>\<open>String\<close> class the sketch calls. Indices are
  \<^verbatim>\<open>unsigned int\<close>: an \<^verbatim>\<open>int\<close> argument is converted, so that \<open>-1\<close> (nothing found)
  becomes the largest index.
\<close>

definition to_unsigned :: "int \<Rightarrow> nat" where
  "to_unsigned i = nat (i mod 2 ^ 32)"

definition indexOf :: "string \<Rightarrow> char \<Rightarrow> int" where
  "indexOf s c =
     (if c \<in> set s then int (length (takeWhile (\<lambda>x. x \<noteq> c) s)) else - 1)"

definition substring :: "string \<Rightarrow> nat \<Rightarrow> nat \<Rightarrow> string" where
  "substring s left right =
     (let l = (if left > right then right else left);
          r = (if left > right then left else right)
      in if l \<ge> length s then []
         else take ((if r > length s then length s else r) - l) (drop l s))"

definition substring_from :: "string \<Rightarrow> nat \<Rightarrow> string" where
  "substring_from s beginIndex = substring s beginIndex (length s)"

text \<open>
  \<^verbatim>\<open>toInt()\<close> is \<^verbatim>\<open>atol\<close>: leading white space, an optional sign, then the decimal
  digits up to the first other character; the value saturates at the ends of a 32-bit
  \<^verbatim>\<open>long\<close>.
\<close>

definition isspace :: "char \<Rightarrow> bool" where
  "isspace c \<longleftrightarrow> (of_char c :: nat) = 32 \<or> (9 \<le> (of_char c :: nat) \<and> (of_char c :: nat) \<le> 13)"

definition isdigit :: "char \<Rightarrow> bool" where
  "isdigit c \<longleftrightarrow> 48 \<le> (of_char c :: nat) \<and> (of_char c :: nat) \<le> 57"

definition digit_val :: "char \<Rightarrow> int" where
  "digit_val c = int (of_char c) - 48"

fun atol_digits :: "int \<Rightarrow> string \<Rightarrow> int" where
  "atol_digits acc [] = acc"
| "atol_digits acc (c # cs) =
     (if isdigit c then atol_digits (acc * 10 + digit_val c) cs else acc)"

definition long_clamp :: "int \<Rightarrow> int" where
  "long_clamp v = (if v > 2147483647 then 2147483647
                   else if v < - 2147483648 then - 2147483648 else v)"

definition toInt :: "string \<Rightarrow> int" where
  "toInt s =
     (case dropWhile isspace s of
        [] \<Rightarrow> 0
      | c # cs \<Rightarrow>
          if c = CHR ''-'' then long_clamp (- atol_digits 0 cs)
          else if c = CHR ''+'' then long_clamp (atol_digits 0 cs)
          else long_clamp (atol_digits 0 (c # cs)))"

text \<open>\<^verbatim>\<open>String(n)\<close> for an integer: its decimal digits, with a minus sign if negative.\<close>

definition digit_char :: "nat \<Rightarrow> char" where
  "digit_char k = char_of (48 + k)"

function String_nat :: "nat \<Rightarrow> string" where
  "String_nat n =
     (if n < 10 then [digit_char n] else String_nat (n div 10) @ [digit_char (n mod 10)])"
  by pat_completeness auto
termination
  by (relation "measure (\<lambda>n. n)") auto

declare String_nat.simps [simp del]

definition String_int :: "int \<Rightarrow> string" where
  "String_int i = (if i < 0 then CHR ''-'' # String_nat (nat (- i)) else String_nat (nat i))"

text \<open>\<^verbatim>\<open>a % b\<close> of C++ truncates towards zero.\<close>

definition c_mod :: "int \<Rightarrow> int \<Rightarrow> int" where
  "c_mod a b = a - b * (sgn a * sgn b * (\<bar>a\<bar> div \<bar>b\<bar>))"

section \<open>The device and its surroundings\<close>

text \<open>
  The globals of the sketch that the quote pipeline reads or writes, together with the
  access points registered with \<^verbatim>\<open>wifiMulti\<close>. \<open>attempts\<close> keeps, oldest first, the
  logins that \<^verbatim>\<open>tryWifi\<close> announced on the display and the serial line (``TRYING:'').
\<close>

record device =
  settings :: "int list"
  wifiStatus :: bool
  p_day :: int
  p_hour :: int
  eeprom :: eeprom
  aps :: "(string \<times> string) list"
  attempts :: "string list"

text \<open>
  What the libraries answer. Each field is the answer at one call site:
  \<^item> \<open>sd_open path\<close>: the bytes of the file \<^verbatim>\<open>SD_MMC.open(path)\<close>, or \<open>None\<close> when the
    file object is false;
  \<^item> \<open>wifi_join aps e\<close>: whether, in the wait loop of \<^verbatim>\<open>tryWifi\<close>, \<^verbatim>\<open>wifiMulti.run()\<close>
    reports \<^verbatim>\<open>WL_CONNECTED\<close> when \<open>e\<close> milliseconds of the wait have passed, with the
    access points \<open>aps\<close> registered;
  \<^item> \<open>wifi_run\<close>: whether \<^verbatim>\<open>wifiMulti.run() == WL_CONNECTED\<close> in \<^verbatim>\<open>httpRequest\<close>;
  \<^item> \<open>time_gate\<close>, \<open>time_store\<close>: \<^verbatim>\<open>getLocalTime\<close> in \<^verbatim>\<open>validTime\<close> and after the
    download, as \<open>Some (tm_mday, tm_hour)\<close>, or \<open>None\<close> when it returns false;
  \<^item> \<open>http_get\<close>: the outcome of \<^verbatim>\<open>http.begin\<close>, \<^verbatim>\<open>http.GET\<close> and \<^verbatim>\<open>http.getString\<close>;
  \<^item> \<open>json_quote payload\<close>: the strings \<^verbatim>\<open>JSON.parse\<close> yields for the quote and the
    author of the first entry (empty when absent);
  \<^item> \<open>esp_random\<close>: the raw number behind \<^verbatim>\<open>random\<close>.
\<close>

datatype http_reply = Unable | Got int string

record world =
  sd_open :: "string \<Rightarrow> string option"
  wifi_join :: "(string \<times> string) list \<Rightarrow> nat \<Rightarrow> bool"
  wifi_run :: bool
  time_gate :: "(int \<times> int) option"
  time_store :: "(int \<times> int) option"
  http_get :: http_reply
  json_quote :: "string \<Rightarrow> string \<times> string"
  esp_random :: nat

section \<open>Connectivity\<close>

text \<open>
  The wait loop of \<^verbatim>\<open>tryWifi\<close>. \<open>e\<close> is the time since \<^verbatim>\<open>a = millis()\<close>. Each pass asks
  the network first and leaves the loop when it is connected; otherwise it compares
  \<^verbatim>\<open>millis() - a\<close>, an unsigned 32-bit difference, with \<^verbatim>\<open>settings[0]\<close> converted to
  unsigned, and returns false when the difference is greater. As in the classifier, the
  loop takes one pass for each value of the clock. \<open>None\<close> stands for a wait that never
  ends: with \<^verbatim>\<open>settings[0]\<close> = -1 the bound is the largest unsigned value and no
  difference exceeds it.
\<close>

partial_function (option) wifi_wait :: "(nat \<Rightarrow> bool) \<Rightarrow> nat \<Rightarrow> nat \<Rightarrow> bool option" where
  "wifi_wait connected timeout e =
     (if connected e then Some True
      else if e mod 2 ^ 32 > timeout then Some False
      else wifi_wait connected timeout (e + 1))"

declare wifi_wait.simps [code]

text \<open>
  \<^verbatim>\<open>tryWifi\<close>: split the login at the first \<^verbatim>\<open>@\<close>, register the access point, wait
  for the connection or the timeout, record the result in \<^verbatim>\<open>wifiStatus\<close>.
  \<^verbatim>\<open>configTime\<close> starts the time service; what the clock then answers is given by
  \<open>time_gate\<close> and \<open>time_store\<close>.
\<close>

definition tryWifi :: "world \<Rightarrow> string \<Rightarrow> device \<Rightarrow> (bool \<times> device) option" where
  "tryWifi w login st =
     (let username = substring login 0 (to_unsigned (indexOf login CHR ''@''));
          password = substring_from login (to_unsigned (indexOf login CHR ''@'' + 1));
          st1 = st\<lparr>aps := aps st @ [(username, password)],
                   attempts := attempts st @ [login]\<rparr>
      in case wifi_wait (wifi_join w (aps st1)) (to_unsigned (settings st ! 0)) 0 of
           None \<Rightarrow> None
         | Some True \<Rightarrow> Some (True, st1\<lparr>wifiStatus := True\<rparr>)
         | Some False \<Rightarrow> Some (False, st1\<lparr>wifiStatus := False\<rparr>))"

text \<open>
  The character loop of \<^verbatim>\<open>bootWiFi\<close>. The result is \<open>(returned, line, st)\<close>:
  \<open>returned\<close> tells that the function left through the \<^verbatim>\<open>return\<close> inside the loop,
  \<open>line\<close> is the text collected when the file ended. It is \<open>None\<close> when a call of
  \<^verbatim>\<open>tryWifi\<close> never returns.
\<close>

definition login_char :: "char \<Rightarrow> bool" where
  "login_char cur \<longleftrightarrow> 32 \<le> (of_char cur :: nat) \<and> (of_char cur :: nat) < 127"

definition collect :: "bool \<Rightarrow> char \<Rightarrow> string \<Rightarrow> string" where
  "collect comment cur line = (if \<not> comment \<and> login_char cur then line @ [cur] else line)"

fun bootWiFi_loop ::
  "world \<Rightarrow> string \<Rightarrow> bool \<Rightarrow> string \<Rightarrow> device \<Rightarrow> (bool \<times> string \<times> device) option" where
  "bootWiFi_loop w [] comment line st = Some (False, line, st)"
| "bootWiFi_loop w (cur # rest) comment line st =
     (if (\<not> comment \<and> cur = CHR 0x0A) \<and> length line \<ge> 1 then
        (case tryWifi w line st of
           None \<Rightarrow> None
         | Some (True, st1) \<Rightarrow>
             Some (True, line, st1\<lparr>eeprom := writeStringToEEPROM 400 line (eeprom st1)\<rparr>)
         | Some (False, st1) \<Rightarrow> bootWiFi_loop w rest True (collect True cur []) st1)
      else if cur = CHR ''#'' then bootWiFi_loop w rest True (collect True cur line) st
      else if comment \<and> cur = CHR 0x0A then bootWiFi_loop w rest False (collect False cur line) st
      else bootWiFi_loop w rest comment (collect comment cur line) st)"

definition offline :: "device \<Rightarrow> device" where
  "offline st = st\<lparr>settings := (settings st)[1 := 2]\<rparr>"

definition bootWiFi :: "world \<Rightarrow> device \<Rightarrow> device option" where
  "bootWiFi w st =
     (case sd_open w ''/resources/logins.txt'' of
        None \<Rightarrow> Some (offline st)
      | Some logins \<Rightarrow>
          (case bootWiFi_loop w logins True [] st of
             None \<Rightarrow> None
           | Some (True, line, st1) \<Rightarrow> Some st1
           | Some (False, line, st1) \<Rightarrow>
               if length line \<ge> 1 then
                 (case tryWifi w line st1 of
                    None \<Rightarrow> None
                  | Some (True, st2) \<Rightarrow> Some st2
                  | Some (False, st2) \<Rightarrow> Some (offline st2))
               else Some (offline st1)))"

section \<open>The rate-limit gate and the download\<close>

definition tracker :: "int \<Rightarrow> int \<Rightarrow> string" where
  "tracker tm_mday tm_hour = String_int tm_mday @ '','' @ String_int tm_hour"

definition validTime :: "world \<Rightarrow> device \<Rightarrow> bool \<times> device" where
  "validTime w st =
     (case time_gate w of
        Some (tm_mday, tm_hour) \<Rightarrow>
          (let temp = readStringFromEEPROM 480 (eeprom st);
               st1 = st\<lparr>p_day := toInt (substring temp 0 (to_unsigned (indexOf temp CHR '','')))\<rparr>;
               st2 = st1\<lparr>p_hour := toInt (substring_from temp (to_unsigned (indexOf temp CHR '','' + 1)))\<rparr>
           in (tm_mday \<noteq> p_day st2 \<and> tm_hour \<ge> p_hour st2, st2))
      | None \<Rightarrow> (False, st))"

definition getJSONQuote :: "world \<Rightarrow> string \<Rightarrow> string" where
  "getJSONQuote w input =
     (case json_quote w input of
        (quote, auth) \<Rightarrow> [CHR 0x22] @ quote @ [CHR 0x22] @ '' - '' @ auth)"

definition error_text :: string where
  "error_text = ''Error... Contact Larry or wait for a bit!''"

definition httpRequest :: "world \<Rightarrow> device \<Rightarrow> string \<times> device" where
  "httpRequest w st =
     (if wifi_run w then
        (case validTime w st of
           (False, st1) \<Rightarrow> (error_text, st1)
         | (True, st1) \<Rightarrow>
             (case http_get w of
                Unable \<Rightarrow> (error_text, st1)
              | Got httpCode payload \<Rightarrow>
                  if httpCode > 0 then
                    if httpCode = 200 \<or> httpCode = 301 then
                      (let quote = getJSONQuote w payload in
                       if settings st1 ! 2 = 1 then
                         (let mem1 = writeStringToEEPROM 0 quote (eeprom st1) in
                          case time_store w of
                            Some (tm_mday, tm_hour) \<Rightarrow>
                              (quote, st1\<lparr>eeprom :=
                                 writeStringToEEPROM 480 (tracker tm_mday tm_hour) mem1\<rparr>)
                          | None \<Rightarrow> (quote, st1\<lparr>eeprom := mem1\<rparr>))
                       else (quote, st1))
                    else (error_text, st1)
                  else (error_text, st1)))
      else (error_text, st))"

section \<open>Removable storage and the acquisition\<close>

text \<open>\<^verbatim>\<open>random(howsmall, howbig)\<close>: \<open>howsmall\<close> if the range is empty, else a value in it.\<close>

definition random :: "world \<Rightarrow> int \<Rightarrow> int \<Rightarrow> int" where
  "random w howsmall howbig =
     (if howsmall \<ge> howbig then howsmall
      else int (esp_random w mod nat (howbig - howsmall)) + howsmall)"

definition sentinel_text :: string where
  "sentinel_text = ''Something'' @ [CHR 0x27] @ ''s up with the SD files... Sorry!''"

definition quote_path :: "world \<Rightarrow> int list \<Rightarrow> string" where
  "quote_path w cfg = ''/quotes/'' @ String_int (random w (cfg ! 4) (cfg ! 5)) @ ''.txt''"

definition getRandSD :: "world \<Rightarrow> device \<Rightarrow> string \<times> device" where
  "getRandSD w st =
     (case sd_open w (quote_path w (settings st)) of
        None \<Rightarrow> (sentinel_text, st)
      | Some backup \<Rightarrow>
          if settings st ! 2 = 1
          then (backup, st\<lparr>eeprom := writeStringToEEPROM 0 backup (eeprom st)\<rparr>)
          else (backup, st))"

text \<open>
  \<^verbatim>\<open>button1\<close> in its three steps. The result is the quote handed to \<^verbatim>\<open>scrollText\<close>;
  scrolling and the wait for the release that follow change neither it nor the device.
  It is \<open>None\<close> when \<^verbatim>\<open>bootWiFi\<close> never returns.
\<close>

definition button1_connect :: "world \<Rightarrow> device \<Rightarrow> device option" where
  "button1_connect w st =
     (if c_mod (settings st ! 1) 2 = 1 \<and> \<not> wifiStatus st then bootWiFi w st else Some st)"

definition button1_fetch :: "world \<Rightarrow> device \<Rightarrow> string \<times> device" where
  "button1_fetch w st =
     (if c_mod (settings st ! 1) 2 = 1 then httpRequest w st else (''Error.'', st))"

definition button1_select :: "world \<Rightarrow> string \<Rightarrow> device \<Rightarrow> string \<times> device" where
  "button1_select w quote st =
     (if settings st ! 1 \<ge> 3 then (readStringFromEEPROM 0 (eeprom st), st)
      else if substring quote 0 6 = ''Error.'' then getRandSD w st
      else (quote, st))"

definition button1 :: "world \<Rightarrow> device \<Rightarrow> (string \<times> device) option" where
  "button1 w st =
     (case button1_connect w st of
        None \<Rightarrow> None
      | Some st1 \<Rightarrow>
          (case button1_fetch w st1 of
             (quote, st2) \<Rightarrow> Some (button1_select w quote st2)))"

section \<open>The gesture classifier\<close>

text \<open>
  The classifier sees the two inputs and the millisecond clock. \<open>level1 t\<close> tells whether
  \<^verbatim>\<open>digitalRead(BUTTON1)\<close> is 1 when \<^verbatim>\<open>millis()\<close> is \<open>t\<close>. Time passes in \<^verbatim>\<open>delay\<close>,
  and a polling loop without \<^verbatim>\<open>delay\<close> takes its next pass at the next value of the
  clock (the passes in between read the same clock and the same levels). The clock does
  not wrap within a press, so \<^verbatim>\<open>millis() - preTime\<close> is the difference of the two values;
  the \<^verbatim>\<open>int\<close> on the other side of each comparison is converted to unsigned.
\<close>

record buttons =
  level1 :: "nat \<Rightarrow> bool"
  level2 :: "nat \<Rightarrow> bool"

definition pressed :: "buttons \<Rightarrow> nat \<Rightarrow> bool" where
  "pressed bt t \<longleftrightarrow> level1 bt t \<or> level2 bt t"

datatype hold_end = Released nat | Long nat

text \<open>The outer \<^verbatim>\<open>while\<close> of a branch up to its end or to the long-press test firing.\<close>

function hold_loop :: "(nat \<Rightarrow> bool) \<Rightarrow> nat \<Rightarrow> nat \<Rightarrow> nat \<Rightarrow> hold_end" where
  "hold_loop held preTime threshold t =
     (if held t then
        (if t - preTime > threshold then Long t
         else hold_loop held preTime threshold (t + 1))
      else Released t)"
  by pat_completeness auto
termination
  by (relation "measure (\<lambda>(held, preTime, threshold, t). preTime + threshold + 1 - t)") auto

declare hold_loop.simps [simp del]

datatype long_end = Forced nat | Let_go nat

text \<open>The inner \<^verbatim>\<open>while\<close> of a long press: \<^verbatim>\<open>delay(100)\<close>, then the force-sleep test.\<close>

function long_wait :: "buttons \<Rightarrow> nat \<Rightarrow> nat \<Rightarrow> nat \<Rightarrow> long_end" where
  "long_wait bt preTime threshold3 t =
     (if pressed bt t then
        (if (t + 100) - preTime > threshold3 then Forced (t + 100)
         else long_wait bt preTime threshold3 (t + 100))
      else Let_go t)"
  by pat_completeness auto
termination
  by (relation "measure (\<lambda>(bt, preTime, threshold3, t). preTime + threshold3 + 1 - t)") auto

declare long_wait.simps [simp del]

text \<open>
  \<^verbatim>\<open>while (digitalRead(BUTTON1) == 1 || digitalRead(BUTTON2) == 1) { ...; delay(step); }\<close>
  has no bound: it ends when both inputs are low, and \<open>None\<close> stands for a wait that
  never ends.
\<close>

partial_function (option) wait_release :: "nat \<Rightarrow> buttons \<Rightarrow> nat \<Rightarrow> nat option" where
  "wait_release step bt t =
     (if pressed bt t then wait_release step bt (t + step) else Some t)"

declare wait_release.simps [code]

text \<open>
  What a call of \<^verbatim>\<open>buttonHandler\<close> comes to: the function it runs for the gesture, the
  early \<^verbatim>\<open>return\<close> with \<^verbatim>\<open>sleepCom\<close> set, or nothing at all.
\<close>

datatype action = Run_magic8 | Run_button1 | Run_button1b | Run_button2 | Run_button2b | Run_credits

datatype outcome = Dispatch action | ForceSleep | NoAction

text \<open>
  The three branches of \<^verbatim>\<open>buttonHandler\<close> are the same text up to the condition of the
  outer loop and the two functions called; \<open>cfg\<close> is the array \<^verbatim>\<open>settings\<close>. The result is the outcome, the value of
  \<^verbatim>\<open>sleepCom\<close> and the clock at that point. After the long-press function the short
  test cannot hold any more, the clock being past the threshold.
\<close>

definition press_branch ::
  "(nat \<Rightarrow> bool) \<Rightarrow> action \<Rightarrow> action \<Rightarrow> int list \<Rightarrow> buttons \<Rightarrow> nat \<Rightarrow> (outcome \<times> bool \<times> nat) option" where
  "press_branch held long short cfg bt preTime =
     (case hold_loop held preTime (to_unsigned (cfg ! 10)) preTime of
        Long t \<Rightarrow>
          (case long_wait bt preTime (to_unsigned (cfg ! 10 * 3)) t of
             Forced t' \<Rightarrow> Some (ForceSleep, True, t')
           | Let_go t' \<Rightarrow> Some (Dispatch long, False, t'))
      | Released t \<Rightarrow>
          if t - preTime < to_unsigned (cfg ! 10) then
            (case wait_release 100 bt t of
               None \<Rightarrow> None
             | Some t' \<Rightarrow> Some (Dispatch short, False, t'))
          else Some (NoAction, False, t))"

definition buttonHandler ::
  "int list \<Rightarrow> buttons \<Rightarrow> nat \<Rightarrow> bool \<Rightarrow> bool \<Rightarrow> (outcome \<times> bool \<times> nat) option" where
  "buttonHandler cfg bt preTime one two =
     (if one \<and> two then
        press_branch (\<lambda>t. level1 bt t \<and> level2 bt t) Run_credits Run_magic8 cfg bt preTime
      else if one then
        press_branch (level1 bt) Run_button1b Run_button1 cfg bt preTime
      else
        press_branch (level2 bt) Run_button2b Run_button2 cfg bt preTime)"

text \<open>
  One pass of the loop in \<^verbatim>\<open>setup\<close>, as far as the power state goes: \<open>Sleeping\<close> when the
  loop is left and the sleep sequence (wait for the release, then
  \<^verbatim>\<open>esp_deep_sleep_start\<close>) has run, \<open>Running\<close> when the loop goes round again.
\<close>

datatype power = Running | Sleeping

definition sleep_sequence :: "buttons \<Rightarrow> nat \<Rightarrow> power option" where
  "sleep_sequence bt t =
     (case wait_release 50 bt t of None \<Rightarrow> None | Some t' \<Rightarrow> Some Sleeping)"

definition setup_pass :: "int list \<Rightarrow> buttons \<Rightarrow> nat \<Rightarrow> nat \<Rightarrow> power option" where
  "setup_pass cfg bt lastContact now =
     (let one = level1 bt now; two = level2 bt now in
      if \<not> one \<and> \<not> two then
        (if now - lastContact > to_unsigned (cfg ! 3 * 1000)
         then sleep_sequence bt now else Some Running)
      else
        (case buttonHandler cfg bt now one two of
           None \<Rightarrow> None
         | Some (out, sleepCom, t) \<Rightarrow>
             if sleepCom then sleep_sequence bt (t + 150) else Some Running))"

text \<open>
  A press as the properties below speak of it: the buttons of the combination are high
  from the entry of the handler (\<open>preTime\<close>) for \<open>d\<close> milliseconds and low afterwards.
\<close>

datatype combo = Only1 | Only2 | Both

definition press :: "combo \<Rightarrow> nat \<Rightarrow> nat \<Rightarrow> buttons" where
  "press c preTime d =
     \<lparr>level1 = (\<lambda>t. c \<noteq> Only2 \<and> t < preTime + d),
      level2 = (\<lambda>t. c \<noteq> Only1 \<and> t < preTime + d)\<rparr>"

definition short_of :: "combo \<Rightarrow> action" where
  "short_of c = (case c of Only1 \<Rightarrow> Run_button1 | Only2 \<Rightarrow> Run_button2 | Both \<Rightarrow> Run_magic8)"

definition long_of :: "combo \<Rightarrow> action" where
  "long_of c = (case c of Only1 \<Rightarrow> Run_button1b | Only2 \<Rightarrow> Run_button2b | Both \<Rightarrow> Run_credits)"

definition handle_press :: "int list \<Rightarrow> combo \<Rightarrow> nat \<Rightarrow> nat \<Rightarrow> (outcome \<times> bool \<times> nat) option" where
  "handle_press cfg c preTime d =
     buttonHandler cfg (press c preTime d) preTime (c \<noteq> Only2) (c \<noteq> Only1)"

section \<open>Fixtures\<close>

text \<open>
  A store fresh from the factory (erased flash reads 0xFF), the settings the sketch
  starts with, the same settings with the long-press threshold 0, the device before
  anything has run, and surroundings in which every library call fails.
\<close>

definition fresh_store :: eeprom where
  "fresh_store = replicate 512 0xFF"

definition default_settings :: "int list" where
  "default_settings = [0, 3, 0, 30, 0, 0, 7, 7, - 8, 1, 1000]"

definition boot_device :: device where
  "boot_device = \<lparr>settings = default_settings, wifiStatus = False, p_day = 0, p_hour = 0,
     eeprom = fresh_store, aps = [], attempts = []\<rparr>"

definition zero_threshold :: "int list" where
  "zero_threshold = [0, 3, 0, 30, 0, 0, 7, 7, - 8, 1, 0]"

definition no_network :: world where
  "no_network = \<lparr>sd_open = (\<lambda>path. None), wifi_join = (\<lambda>aps e. False), wifi_run = False,
     time_gate = None, time_store = None, http_get = Unable,
     json_quote = (\<lambda>payload. ([], [])), esp_random = 0\<rparr>"

text \<open>
  The watermark slot holds no watermark when its text has no digit in it: a store never
  written (all 0xFF), a zero length cell, any text that is not a number.
\<close>

definition no_watermark :: "eeprom \<Rightarrow> bool" where
  "no_watermark mem \<longleftrightarrow> (\<forall>c \<in> set (readStringFromEEPROM 480 mem). \<not> isdigit c)"

text \<open>
  A download succeeds when the network is up, the gate lets the request through and the
  server answers 200 or 301: the conditions under which \<open>httpRequest\<close> replaces its
  error text.
\<close>

definition downloaded :: "world \<Rightarrow> device \<Rightarrow> bool" where
  "downloaded w st \<longleftrightarrow>
     wifi_run w \<and> fst (validTime w st)
     \<and> (case http_get w of Unable \<Rightarrow> False
         | Got httpCode payload \<Rightarrow> httpCode = 200 \<or> httpCode = 301)"

text \<open>
  Surroundings in which the download succeeds but the clock cannot be read afterwards,
  and a device with mode 1 and caching switched on.
\<close>

definition cached_fetch :: world where
  "cached_fetch = no_network
     \<lparr>wifi_run := True, time_gate := Some (5, 14), http_get := Got 200 ''{}'',
      json_quote := (\<lambda>payload. (''Q'', ''A''))\<rparr>"

definition caching_device :: device where
  "caching_device = boot_device\<lparr>settings := default_settings[1 := 1, 2 := 1]\<rparr>"

text \<open>
  A card whose logins file lists A, B and C (each after a comment line, the last line
  without a newline at its end) and a network that is joined only once C is registered;
  a device with mode 1, caching on and the index range 7 to 8; a device whose store
  holds the quote ``Old''; a device in mode 1 that is already connected and whose store
  holds the empty quote; surroundings in which the server answers 200 with a body that
  the parser finds no quote and no author in; a card with ``Hello'' in quote file 7.
\<close>

definition only_C :: "string \<Rightarrow> world" where
  "only_C file = no_network
     \<lparr>sd_open := (\<lambda>path. if path = ''/resources/logins.txt'' then Some file else None),
      wifi_join := (\<lambda>aps e. (''C'', ''3'') \<in> set aps)\<rparr>"

definition standard_device :: device where
  "standard_device = boot_device\<lparr>settings := [0, 1, 1, 30, 7, 8, 7, 7, - 8, 1, 1000]\<rparr>"

definition stale_device :: "int \<Rightarrow> device" where
  "stale_device mode = boot_device
     \<lparr>settings := [0, mode, 1, 30, 0, 0, 7, 7, - 8, 1, 1000],
      eeprom := writeStringToEEPROM 0 ''Old'' fresh_store\<rparr>"

definition connected_device :: device where
  "connected_device = boot_device
     \<lparr>settings := [0, 1, 1, 30, 7, 8, 7, 7, - 8, 1, 1000], wifiStatus := True,
      eeprom := replicate 512 0\<rparr>"


definition hello_card :: world where
  "hello_card = no_network
     \<lparr>sd_open := (\<lambda>path. if path = ''/quotes/7.txt'' then Some ''Hello'' else None)\<rparr>"

definition logins_ABC :: string where
  "logins_ABC = ''#'' @ [CHR 0x0A] @ ''A@1'' @ [CHR 0x0A] @ ''#'' @ [CHR 0x0A] @ ''B@2''
     @ [CHR 0x0A] @ ''#'' @ [CHR 0x0A] @ ''C@3''"

section \<open>Facts about the persistent store\<close>

lemma unat_byte_of_nat: "unat (of_nat n :: byte) = n mod 256"
  by (simp add: unat_of_nat)

lemma unat_byte_less: "unat (b :: byte) < 256"
  using unsigned_less [of b, where ?'a = nat] by simp

lemma char_of_byte_of_char [simp]: "char_of_byte (byte_of_char c) = c"
  by (simp add: char_of_byte_def byte_of_char_def unat_byte_of_nat)

lemma length_EEPROM_write [simp]: "length (EEPROM_write a v mem) = length mem"
  by (simp add: EEPROM_write_def)

lemma length_write_loop [simp]: "length (write_loop off s len i mem) = length mem"
  by (induction off s len i mem rule: write_loop.induct)
     (subst write_loop.simps, simp)

lemma length_writeStringToEEPROM [simp]: "length (writeStringToEEPROM off s mem) = length mem"
  by (simp add: writeStringToEEPROM_def Let_def)

lemma write_loop_nth:
  "write_loop off s len i mem ! a =
     (if off + 1 + i \<le> a \<and> a < off + 1 + len \<and> a < length mem
      then byte_of_char (charAt s (a - (off + 1))) else mem ! a)"
proof (induction off s len i mem rule: write_loop.induct)
  case (1 off s len i mem)
  show ?case
  proof (cases "i < len")
    case True
    have step: "write_loop off s len i mem ! a =
        write_loop off s len (i + 1)
          (EEPROM_write (off + 1 + i) (byte_of_char (charAt s i)) mem) ! a"
      using True by (subst write_loop.simps) simp
    show ?thesis
    proof (cases "a = off + 1 + i")
      case here: True
      then have "a - (off + 1) = i" by simp
      then show ?thesis
        unfolding step "1.IH" [OF True]
        using True here by (simp add: EEPROM_write_def)
    next
      case False
      then show ?thesis
        unfolding step "1.IH" [OF True]
        using True by (auto simp: EEPROM_write_def nth_list_update)
    qed
  next
    case False
    then have "write_loop off s len i mem = mem"
      by (subst write_loop.simps) simp
    then show ?thesis
      using False by auto
  qed
qed

lemma read_loop_eq:
  "read_loop off n i mem data =
     data @ map (\<lambda>j. char_of_byte (EEPROM_read (off + 1 + j) mem)) [i..<n]"
proof (induction off n i mem data rule: read_loop.induct)
  case (1 off n i mem data)
  show ?case
  proof (cases "i < n")
    case True
    have "read_loop off n i mem data =
        read_loop off n (i + 1) mem (data @ [char_of_byte (EEPROM_read (off + 1 + i) mem)])"
      using True by (subst read_loop.simps) simp
    also have "\<dots> = (data @ [char_of_byte (EEPROM_read (off + 1 + i) mem)]) @
        map (\<lambda>j. char_of_byte (EEPROM_read (off + 1 + j) mem)) [i + 1..<n]"
      by (rule "1.IH" [OF True])
    also have "\<dots> = data @ map (\<lambda>j. char_of_byte (EEPROM_read (off + 1 + j) mem)) [i..<n]"
      using True by (simp add: upt_conv_Cons)
    finally show ?thesis .
  next
    case False
    then show ?thesis
      by (subst read_loop.simps) simp
  qed
qed

lemma String_cstr_terminated:
  "CHR 0x00 \<notin> set s \<Longrightarrow> String_cstr (s @ [CHR 0x00]) = s"
  by (induction s) (auto simp: String_cstr_def)

lemma length_String_cstr: "length (String_cstr (data @ [CHR 0x00])) \<le> length data"
proof -
  have "length (takeWhile (\<lambda>c. c \<noteq> CHR 0x00) (data @ [CHR 0x00])) \<le> length data"
    by (induction data) auto
  then show ?thesis by (simp add: String_cstr_def)
qed

lemma length_readStringFromEEPROM: "length (readStringFromEEPROM off mem) \<le> 255"
proof -
  have "unat (EEPROM_read off mem) < 256"
    by (rule unat_byte_less)
  moreover have "length (readStringFromEEPROM off mem) \<le> unat (EEPROM_read off mem)"
    using length_String_cstr [of "read_loop off (unat (EEPROM_read off mem)) 0 mem []"]
    by (simp add: readStringFromEEPROM_def Let_def read_loop_eq)
  ultimately show ?thesis by simp
qed

text \<open>
  The round trip, for a string without NUL whose \<open>1 + length\<close> cells lie inside the store.
\<close>

lemma read_write_same:
  assumes len: "length s \<le> 255"
    and nul: "CHR 0x00 \<notin> set s"
    and fit: "off + length s < length mem"
  shows "readStringFromEEPROM off (writeStringToEEPROM off s mem) = s"
proof -
  let ?mem1 = "EEPROM_write off (of_nat (length s)) mem"
  let ?mem2 = "write_loop off s (length s) 0 ?mem1"
  have ulen: "unat (of_nat (length s) :: byte) = length s"
    using len by (simp add: unat_byte_of_nat)
  have w: "writeStringToEEPROM off s mem = ?mem2"
    by (simp add: writeStringToEEPROM_def Let_def ulen)
  have head: "EEPROM_read off ?mem2 = of_nat (length s)"
    using fit by (simp add: EEPROM_read_def write_loop_nth EEPROM_write_def)
  have cells: "map (\<lambda>j. char_of_byte (EEPROM_read (off + 1 + j) ?mem2)) [0..<length s] = s"
  proof (rule nth_equalityI)
    show "length (map (\<lambda>j. char_of_byte (EEPROM_read (off + 1 + j) ?mem2)) [0..<length s])
          = length s"
      by simp
  next
    fix j
    assume "j < length (map (\<lambda>j. char_of_byte (EEPROM_read (off + 1 + j) ?mem2)) [0..<length s])"
    then have j: "j < length s" by simp
    then have "EEPROM_read (off + 1 + j) ?mem2 = byte_of_char (s ! j)"
      using fit by (simp add: EEPROM_read_def write_loop_nth charAt_def)
    then show "map (\<lambda>j. char_of_byte (EEPROM_read (off + 1 + j) ?mem2)) [0..<length s] ! j = s ! j"
      using j by simp
  qed
  show ?thesis
    unfolding w
    using cells
    by (simp add: readStringFromEEPROM_def Let_def head ulen read_loop_eq
        String_cstr_terminated [OF nul])
qed

lemma writeString_cell:
  "EEPROM_read a (writeStringToEEPROM off s mem) =
     (if a < length mem then
        (if a = off then of_nat (length s)
         else if off < a \<and> a \<le> off + length s mod 256
           then byte_of_char (charAt s (a - (off + 1)))
         else mem ! a)
      else 0)"
  by (auto simp: EEPROM_read_def writeStringToEEPROM_def Let_def write_loop_nth
      unat_byte_of_nat EEPROM_write_def)

lemma String_cstr_cut:
  assumes "i < length data" and "data ! i = CHR 0x00"
  shows "length (String_cstr data) \<le> i"
proof (rule ccontr)
  assume "\<not> length (String_cstr data) \<le> i"
  then have less: "i < length (takeWhile (\<lambda>c. c \<noteq> CHR 0x00) data)"
    by (simp add: String_cstr_def)
  then have "takeWhile (\<lambda>c. c \<noteq> CHR 0x00) data ! i \<in> set (takeWhile (\<lambda>c. c \<noteq> CHR 0x00) data)"
    by (rule nth_mem)
  then have "takeWhile (\<lambda>c. c \<noteq> CHR 0x00) data ! i \<noteq> CHR 0x00"
    by (auto dest: set_takeWhileD)
  moreover have "takeWhile (\<lambda>c. c \<noteq> CHR 0x00) data ! i = data ! i"
    using less by (rule takeWhile_nth)
  ultimately show False
    using assms by simp
qed

lemma char_of_byte_0 [simp]: "char_of_byte 0 = CHR 0x00"
  by (simp add: char_of_byte_def char_of_def)

lemma byte_of_char_0 [simp]: "byte_of_char (CHR 0x00) = 0"
  by (simp add: byte_of_char_def)

lemma read_cut:
  assumes "i < unat (EEPROM_read off mem)" and "EEPROM_read (off + 1 + i) mem = 0"
  shows "length (readStringFromEEPROM off mem) \<le> i"
proof -
  let ?data = "map (\<lambda>j. char_of_byte (EEPROM_read (off + 1 + j) mem))
                 [0..<unat (EEPROM_read off mem)] @ [CHR 0x00]"
  have "i < length ?data" using assms(1) by simp
  moreover have "?data ! i = CHR 0x00"
    using assms by (simp add: nth_append)
  ultimately have "length (String_cstr ?data) \<le> i"
    by (rule String_cstr_cut)
  then show ?thesis
    by (simp add: readStringFromEEPROM_def Let_def read_loop_eq)
qed


section \<open>The round trip through the store\<close>

text \<open>
  C4, as amended. Writing a string of at most 255 characters with
  \<open>writeStringToEEPROM\<close> and reading the same offset with \<open>readStringFromEEPROM\<close> gives
  the string back, provided that it holds no NUL character and that its length cell and
  its characters all lie inside the 512 cells of the store.
\<close>

theorem roundtrip_within_store:
  assumes "wf_eeprom mem"
    and "length s \<le> 255"
    and "CHR 0x00 \<notin> set s"
    and "off + 1 + length s \<le> EEPROM_size"
  shows "readStringFromEEPROM off (writeStringToEEPROM off s mem) = s"
proof -
  have "off + length s < length mem"
    using assms(1,4) by (simp add: wf_eeprom_def)
  with assms(2,3) show ?thesis
    by (rule read_write_same)
qed

theorem roundtrip_within_store_witness:
  "wf_eeprom (replicate 512 0xFF) \<and> length ''Hello'' \<le> 255 \<and> CHR 0x00 \<notin> set ''Hello''
   \<and> 400 + 1 + length ''Hello'' \<le> EEPROM_size
   \<and> readStringFromEEPROM 400 (writeStringToEEPROM 400 ''Hello'' (replicate 512 0xFF)) = ''Hello''"
proof -
  have h1: "wf_eeprom (replicate 512 0xFF)"
    by (simp add: wf_eeprom_def EEPROM_size_def)
  have h2: "length ''Hello'' \<le> 255" by simp
  have h3: "CHR 0x00 \<notin> set ''Hello''" by simp
  have h4: "400 + 1 + length ''Hello'' \<le> EEPROM_size"
    by (simp add: EEPROM_size_def)
  show ?thesis
    using h1 h2 h3 h4 roundtrip_within_store [OF h1 h2 h3 h4] by simp
qed

text \<open>
  C4 as it is stated fails twice over. A string of 32 characters written to the watermark
  slot at offset 480 needs cell 512, which the store does not have, and comes back one
  character short. A string with a NUL inside comes back cut at the NUL, at any offset.
\<close>

theorem roundtrip_counterexample:
  "readStringFromEEPROM 480 (writeStringToEEPROM 480 (replicate 32 (CHR ''a'')) (replicate 512 0xFF))
     \<noteq> replicate 32 (CHR ''a'')
   \<and> readStringFromEEPROM 0 (writeStringToEEPROM 0 [CHR ''a'', CHR 0x00, CHR ''b''] (replicate 512 0xFF))
     \<noteq> [CHR ''a'', CHR 0x00, CHR ''b'']"
proof
  let ?m = "writeStringToEEPROM 480 (replicate 32 (CHR ''a'')) (replicate 512 0xFF)"
  have "length (readStringFromEEPROM 480 ?m) \<le> 31"
    by (rule read_cut) (simp_all add: writeString_cell)
  then show "readStringFromEEPROM 480 ?m \<noteq> replicate 32 (CHR ''a'')"
    by auto
next
  let ?m = "writeStringToEEPROM 0 [CHR ''a'', CHR 0x00, CHR ''b''] (replicate 512 0xFF)"
  have "length (readStringFromEEPROM 0 ?m) \<le> 1"
    by (rule read_cut) (simp_all add: writeString_cell charAt_def)
  then show "readStringFromEEPROM 0 ?m \<noteq> [CHR ''a'', CHR 0x00, CHR ''b'']"
    by auto
qed



section \<open>Decimal numbers and substrings\<close>

lemma of_char_digit_char: "k < 10 \<Longrightarrow> (of_char (digit_char k) :: nat) = 48 + k"
  by (simp add: digit_char_def)

lemma isdigit_digit_char [simp]: "k < 10 \<Longrightarrow> isdigit (digit_char k)"
  by (simp add: isdigit_def of_char_digit_char)

lemma digit_val_digit_char [simp]: "k < 10 \<Longrightarrow> digit_val (digit_char k) = int k"
  by (simp add: digit_val_def of_char_digit_char)

lemma String_nat_digits: "c \<in> set (String_nat n) \<Longrightarrow> isdigit c"
proof (induction n arbitrary: c rule: String_nat.induct)
  case (1 n)
  show ?case
  proof (cases "n < 10")
    case True
    with "1.prems" show ?thesis
      by (subst (asm) String_nat.simps) auto
  next
    case False
    with "1.prems" have "c \<in> set (String_nat (n div 10)) \<or> c = digit_char (n mod 10)"
      by (subst (asm) String_nat.simps) auto
    then show ?thesis
      using "1.IH" [OF False] by auto
  qed
qed

lemma String_nat_not_Nil [simp]: "String_nat n \<noteq> []"
  by (subst String_nat.simps) simp

lemma atol_digits_snoc:
  "\<forall>c \<in> set xs. isdigit c \<Longrightarrow>
   atol_digits acc (xs @ ys) = atol_digits (atol_digits acc xs) ys"
  by (induction xs arbitrary: acc) auto

lemma atol_digits_String_nat: "atol_digits 0 (String_nat n) = int n"
proof (induction n rule: String_nat.induct)
  case (1 n)
  show ?case
  proof (cases "n < 10")
    case True
    then show ?thesis
      by (subst String_nat.simps) simp
  next
    case False
    have "atol_digits 0 (String_nat n)
        = atol_digits 0 (String_nat (n div 10) @ [digit_char (n mod 10)])"
      using False by (subst String_nat.simps) simp
    also have "\<dots> = atol_digits (atol_digits 0 (String_nat (n div 10))) [digit_char (n mod 10)]"
      by (rule atol_digits_snoc) (auto dest: String_nat_digits)
    also have "\<dots> = int (n div 10) * 10 + int (n mod 10)"
      using "1.IH" [OF False] by simp
    also have "\<dots> = int n"
      by presburger
    finally show ?thesis .
  qed
qed

lemma isdigit_not_space: "isdigit c \<Longrightarrow> \<not> isspace c"
  by (auto simp: isdigit_def isspace_def)

lemma isdigit_not_sign: "isdigit c \<Longrightarrow> c \<noteq> CHR ''-'' \<and> c \<noteq> CHR ''+'' \<and> c \<noteq> CHR '',''"
  by (auto simp: isdigit_def)

lemma toInt_String_nat:
  assumes "n < 2 ^ 31"
  shows "toInt (String_nat n) = int n"
proof -
  obtain c cs where split: "String_nat n = c # cs"
    by (cases "String_nat n") auto
  then have "isdigit c"
    using String_nat_digits [of c n] by simp
  then have "dropWhile isspace (String_nat n) = c # cs" and "c \<noteq> CHR ''-''" and "c \<noteq> CHR ''+''"
    using split by (auto simp: isdigit_not_space dest: isdigit_not_sign)
  then have "toInt (String_nat n) = long_clamp (atol_digits 0 (String_nat n))"
    by (simp add: toInt_def split)
  then show ?thesis
    using assms by (simp add: atol_digits_String_nat long_clamp_def)
qed

lemma atol_digits_none: "\<forall>c \<in> set s. \<not> isdigit c \<Longrightarrow> atol_digits acc s = acc"
  by (cases s) auto

lemma toInt_no_digit:
  assumes "\<forall>c \<in> set s. \<not> isdigit c"
  shows "toInt s = 0"
proof (cases "dropWhile isspace s")
  case Nil
  show ?thesis by (simp only: toInt_def Nil list.case)
next
  case (Cons c cs)
  have "set (dropWhile isspace s) \<subseteq> set s"
    by (auto dest: set_dropWhileD)
  then have nd: "\<forall>x \<in> set (c # cs). \<not> isdigit x"
    using assms Cons by auto
  then have "atol_digits 0 cs = 0" and "atol_digits 0 (c # cs) = 0"
    by (auto intro: atol_digits_none)
  then show ?thesis
    by (simp add: toInt_def Cons long_clamp_def del: atol_digits.simps)
qed

lemma set_substring: "set (substring s l r) \<subseteq> set s"
  by (auto simp: substring_def Let_def dest: in_set_takeD in_set_dropD)

lemma set_substring_from: "set (substring_from s b) \<subseteq> set s"
  by (simp add: substring_from_def set_substring)

lemma indexOf_absent: "c \<notin> set s \<Longrightarrow> indexOf s c = - 1"
  by (simp add: indexOf_def)

lemma takeWhile_upto: "c \<notin> set xs \<Longrightarrow> takeWhile (\<lambda>x. x \<noteq> c) (xs @ c # ys) = xs"
  by (induction xs) auto

lemma indexOf_first: "c \<notin> set xs \<Longrightarrow> indexOf (xs @ c # ys) c = int (length xs)"
  by (simp add: indexOf_def takeWhile_upto)

lemma to_unsigned_int: "n < 2 ^ 32 \<Longrightarrow> to_unsigned (int n) = n"
  by (simp add: to_unsigned_def nat_mod_distrib flip: of_nat_power) 

lemma substring_prefix: "substring (xs @ ys) 0 (length xs) = xs"
  by (auto simp: substring_def Let_def)

lemma substring_from_suffix: "substring_from (xs @ c # ys) (length xs + 1) = ys"
  by (auto simp: substring_from_def substring_def Let_def)


section \<open>The rate-limit gate\<close>

lemma parse_tracker:
  assumes pd: "0 \<le> pd" "pd < 2 ^ 31" and ph: "0 \<le> ph" "ph < 2 ^ 31"
    and len: "length (tracker pd ph) \<le> 255"
  shows "toInt (substring (tracker pd ph) 0 (to_unsigned (indexOf (tracker pd ph) CHR '',''))) = pd"
    and "toInt (substring_from (tracker pd ph)
           (to_unsigned (indexOf (tracker pd ph) CHR '','' + 1))) = ph"
proof -
  let ?d = "String_nat (nat pd)" and ?h = "String_nat (nat ph)"
  have t: "tracker pd ph = ?d @ CHR '','' # ?h"
    using pd ph by (simp add: tracker_def String_int_def)
  have "CHR '','' \<notin> set ?d"
    using String_nat_digits isdigit_not_sign by blast
  then have idx: "indexOf (tracker pd ph) CHR '','' = int (length ?d)"
    unfolding t by (rule indexOf_first)
  have small: "length ?d < 2 ^ 32" "length ?d + 1 < 2 ^ 32"
    using len unfolding t by simp_all
  have u1: "to_unsigned (int (length ?d)) = length ?d"
    using small(1) by (rule to_unsigned_int)
  have "to_unsigned (int (length ?d + 1)) = length ?d + 1"
    using small(2) by (rule to_unsigned_int)
  then have u2: "to_unsigned (int (length ?d) + 1) = length ?d + 1"
    by (simp add: add.commute)
  have "toInt ?d = int (nat pd)" and "toInt ?h = int (nat ph)"
    using pd ph by (simp_all add: toInt_String_nat nat_less_iff)
  then have vals: "toInt ?d = pd" "toInt ?h = ph"
    using pd ph by simp_all
  show "toInt (substring (tracker pd ph) 0 (to_unsigned (indexOf (tracker pd ph) CHR '',''))) = pd"
    unfolding idx u1 unfolding t by (simp only: substring_prefix vals)
  show "toInt (substring_from (tracker pd ph)
           (to_unsigned (indexOf (tracker pd ph) CHR '','' + 1))) = ph"
    unfolding idx u2 unfolding t by (simp only: substring_from_suffix vals)
qed

lemma validTime_fst:
  "time_gate w = Some (day, hour) \<Longrightarrow>
   fst (validTime w st) =
     (let temp = readStringFromEEPROM 480 (eeprom st)
      in day \<noteq> toInt (substring temp 0 (to_unsigned (indexOf temp CHR '','')))
         \<and> hour \<ge> toInt (substring_from temp (to_unsigned (indexOf temp CHR '','' + 1))))"
  by (simp add: validTime_def Let_def)

lemma validTime_blank:
  assumes clock: "time_gate w = Some (day, hour)" and day: "1 \<le> day" and hour: "0 \<le> hour"
    and blank: "no_watermark (eeprom st)"
  shows "fst (validTime w st)"
proof -
  let ?temp = "readStringFromEEPROM 480 (eeprom st)"
  have nd: "\<forall>c \<in> set ?temp. \<not> isdigit c"
    using blank by (simp add: no_watermark_def)
  have "toInt (substring ?temp 0 (to_unsigned (indexOf ?temp CHR '',''))) = 0"
    using nd set_substring by (intro toInt_no_digit) blast
  moreover have "toInt (substring_from ?temp (to_unsigned (indexOf ?temp CHR '','' + 1))) = 0"
    using nd set_substring_from by (intro toInt_no_digit) blast
  ultimately show ?thesis
    using day hour by (simp add: validTime_fst [OF clock] Let_def)
qed

lemma validTime_stored:
  assumes clock: "time_gate w = Some (day, hour)"
    and pd: "0 \<le> pd" "pd < 2 ^ 31" and ph: "0 \<le> ph" "ph < 2 ^ 31"
    and temp: "readStringFromEEPROM 480 (eeprom st) = tracker pd ph"
  shows "fst (validTime w st) = (day \<noteq> pd \<and> hour \<ge> ph)"
proof -
  have "length (tracker pd ph) \<le> 255"
    using length_readStringFromEEPROM [of 480 "eeprom st"] by (simp add: temp)
  with pd ph have "toInt (substring (tracker pd ph) 0 (to_unsigned (indexOf (tracker pd ph) CHR '',''))) = pd"
    and "toInt (substring_from (tracker pd ph)
           (to_unsigned (indexOf (tracker pd ph) CHR '','' + 1))) = ph"
    by (simp_all add: parse_tracker)
  then show ?thesis
    by (simp add: validTime_fst [OF clock] Let_def temp)
qed

text \<open>
  C1. Let the clock answer with a day of the month (1 or more) and an hour. With no
  watermark in the slot \<open>validTime\<close> returns true. With the watermark \<open>(pd, ph)\<close> in
  the slot, as \<open>httpRequest\<close> writes it, \<open>validTime\<close> returns true exactly when the day
  differs from \<open>pd\<close> and the hour is at least \<open>ph\<close>. So watermark (5, 10) and now (5, 14)
  give false.
\<close>

theorem validTime_gate:
  assumes clock: "time_gate w = Some (day, hour)" and day: "1 \<le> day" and hour: "0 \<le> hour"
  shows "(no_watermark (eeprom st) \<longrightarrow> fst (validTime w st))
       \<and> (\<forall>pd ph. 0 \<le> pd \<and> pd < 2 ^ 31 \<and> 0 \<le> ph \<and> ph < 2 ^ 31
             \<and> readStringFromEEPROM 480 (eeprom st) = tracker pd ph
           \<longrightarrow> fst (validTime w st) = (day \<noteq> pd \<and> hour \<ge> ph))"
  using validTime_blank [OF clock day hour] validTime_stored [OF clock]
  by blast

lemma EEPROM_read_range: "EEPROM_read a mem \<in> insert 0 (set mem)"
  by (simp add: EEPROM_read_def)

lemma readString_chars:
  assumes "c \<in> set (readStringFromEEPROM off mem)"
  shows "c \<in> char_of_byte ` insert 0 (set mem)"
proof -
  let ?data = "map (\<lambda>j. char_of_byte (EEPROM_read (off + 1 + j) mem))
                 [0..<unat (EEPROM_read off mem)] @ [CHR 0x00]"
  have "c \<in> set (takeWhile (\<lambda>c. c \<noteq> CHR 0x00) ?data)"
    using assms by (simp add: readStringFromEEPROM_def Let_def read_loop_eq String_cstr_def)
  then have "c \<in> set ?data"
    by (rule set_takeWhileD [THEN conjunct1])
  then consider j where "c = char_of_byte (EEPROM_read (off + 1 + j) mem)" | "c = char_of_byte 0"
    by auto
  then show ?thesis
    using EEPROM_read_range by cases blast+
qed

lemma no_watermark_fresh: "no_watermark fresh_store"
proof -
  have "\<not> isdigit (char_of_byte 0)" "\<not> isdigit (char_of_byte 0xFF)"
    by (simp_all add: isdigit_def char_of_byte_def)
  then show ?thesis
    by (auto simp: no_watermark_def fresh_store_def dest!: readString_chars)
qed

lemma tracker_5_10: "tracker 5 10 = ''5,10''"
  by code_simp

theorem validTime_gate_witness:
  "\<not> fst (validTime (no_network\<lparr>time_gate := Some (5, 14)\<rparr>)
            (boot_device\<lparr>eeprom := writeStringToEEPROM 480 (tracker 5 10) fresh_store\<rparr>))
   \<and> fst (validTime (no_network\<lparr>time_gate := Some (5, 14)\<rparr>) boot_device)"
proof -
  let ?w = "no_network\<lparr>time_gate := Some (5, 14)\<rparr>"
  let ?st = "boot_device\<lparr>eeprom := writeStringToEEPROM 480 (tracker 5 10) fresh_store\<rparr>"
  have clock: "time_gate ?w = Some (5, 14)" by simp
  have stored: "readStringFromEEPROM 480 (eeprom ?st) = tracker 5 10"
    by (simp add: tracker_5_10 read_write_same fresh_store_def)
  have blank: "no_watermark (eeprom boot_device)"
    by (simp add: boot_device_def no_watermark_fresh)
  have "fst (validTime ?w ?st) = ((5::int) \<noteq> 5 \<and> (14::int) \<ge> 10)"
    using validTime_gate [OF clock, of ?st] stored by simp
  moreover have "fst (validTime ?w boot_device)"
    using validTime_gate [OF clock, of boot_device] blank by simp
  ultimately show ?thesis by simp
qed

section \<open>The download and the store\<close>

lemma validTime_keeps [simp]:
  "eeprom (snd (validTime w st)) = eeprom st"
  "settings (snd (validTime w st)) = settings st"
  "wifiStatus (snd (validTime w st)) = wifiStatus st"
  by (simp_all add: validTime_def Let_def split: option.splits prod.splits)

lemma length_String_nat: "0 < k \<Longrightarrow> n < 10 ^ k \<Longrightarrow> length (String_nat n) \<le> k"
proof (induction n arbitrary: k rule: String_nat.induct)
  case (1 n)
  show ?case
  proof (cases "n < 10")
    case True
    then show ?thesis
      using "1.prems" by (subst String_nat.simps) simp
  next
    case False
    then have k: "1 < k"
      using "1.prems" by (cases "k = 1") auto
    then have "n div 10 < 10 ^ (k - 1)"
      using "1.prems"(2) by (cases k) (auto simp: less_mult_imp_div_less)
    then have "length (String_nat (n div 10)) \<le> k - 1"
      using "1.IH" [OF False, of "k - 1"] k by simp
    then show ?thesis
      using False k by (subst String_nat.simps) simp
  qed
qed

lemma tracker_shape:
  assumes "0 \<le> d" "d < 2 ^ 31" "0 \<le> h" "h < 2 ^ 31"
  shows "length (tracker d h) \<le> 21" and "CHR 0x00 \<notin> set (tracker d h)"
proof -
  have "nat d < 10 ^ 10" "nat h < 10 ^ 10"
    using assms by simp_all
  then have "length (String_nat (nat d)) \<le> 10" "length (String_nat (nat h)) \<le> 10"
    by (simp_all add: length_String_nat)
  then show "length (tracker d h) \<le> 21"
    using assms by (simp add: tracker_def String_int_def)
  have "\<not> isdigit (CHR 0x00)"
    by (simp add: isdigit_def)
  then show "CHR 0x00 \<notin> set (tracker d h)"
    using assms by (auto simp: tracker_def String_int_def dest: String_nat_digits)
qed

lemma httpRequest_fst:
  "fst (httpRequest w st) =
     (if downloaded w st then
        (case http_get w of Got httpCode payload \<Rightarrow> getJSONQuote w payload | Unable \<Rightarrow> error_text)
      else error_text)"
  by (auto simp: httpRequest_def downloaded_def Let_def
      split: prod.splits http_reply.splits option.splits bool.splits)

text \<open>
  C8, as amended. After a successful download with caching enabled \<open>httpRequest\<close> has
  written the quote to offset 0 and, if the clock could be read at that moment, the
  watermark of that day and hour to offset 480, which then reads back as written. In
  every other case the store is untouched, so the watermark is never written without the
  quote.
\<close>

theorem httpRequest_store:
  "eeprom (snd (httpRequest w st)) =
     (if downloaded w st \<and> settings st ! 2 = 1 then
        (case time_store w of
           Some (tm_mday, tm_hour) \<Rightarrow>
             writeStringToEEPROM 480 (tracker tm_mday tm_hour)
               (writeStringToEEPROM 0 (fst (httpRequest w st)) (eeprom st))
         | None \<Rightarrow> writeStringToEEPROM 0 (fst (httpRequest w st)) (eeprom st))
      else eeprom st)
   \<and> (downloaded w st \<and> settings st ! 2 = 1 \<and> wf_eeprom (eeprom st)
        \<and> time_store w = Some (tm_mday, tm_hour)
        \<and> 0 \<le> tm_mday \<and> tm_mday < 2 ^ 31 \<and> 0 \<le> tm_hour \<and> tm_hour < 2 ^ 31
      \<longrightarrow> readStringFromEEPROM 480 (eeprom (snd (httpRequest w st))) = tracker tm_mday tm_hour)"
proof
  have keep: "\<And>b st1. validTime w st = (b, st1) \<Longrightarrow> eeprom st1 = eeprom st \<and> settings st1 = settings st"
    using validTime_keeps [of w st] by simp
  show store: "eeprom (snd (httpRequest w st)) =
     (if downloaded w st \<and> settings st ! 2 = 1 then
        (case time_store w of
           Some (tm_mday, tm_hour) \<Rightarrow>
             writeStringToEEPROM 480 (tracker tm_mday tm_hour)
               (writeStringToEEPROM 0 (fst (httpRequest w st)) (eeprom st))
         | None \<Rightarrow> writeStringToEEPROM 0 (fst (httpRequest w st)) (eeprom st))
      else eeprom st)"
    by (auto simp: httpRequest_def downloaded_def Let_def dest!: keep
        split: prod.splits http_reply.splits option.splits bool.splits)
  show "downloaded w st \<and> settings st ! 2 = 1 \<and> wf_eeprom (eeprom st)
        \<and> time_store w = Some (tm_mday, tm_hour)
        \<and> 0 \<le> tm_mday \<and> tm_mday < 2 ^ 31 \<and> 0 \<le> tm_hour \<and> tm_hour < 2 ^ 31
      \<longrightarrow> readStringFromEEPROM 480 (eeprom (snd (httpRequest w st))) = tracker tm_mday tm_hour"
  proof
    assume a: "downloaded w st \<and> settings st ! 2 = 1 \<and> wf_eeprom (eeprom st)
        \<and> time_store w = Some (tm_mday, tm_hour)
        \<and> 0 \<le> tm_mday \<and> tm_mday < 2 ^ 31 \<and> 0 \<le> tm_hour \<and> tm_hour < 2 ^ 31"
    let ?mem1 = "writeStringToEEPROM 0 (fst (httpRequest w st)) (eeprom st)"
    have eq: "eeprom (snd (httpRequest w st)) = writeStringToEEPROM 480 (tracker tm_mday tm_hour) ?mem1"
      using a by (simp add: store)
    have "length (tracker tm_mday tm_hour) \<le> 21" and nul: "CHR 0x00 \<notin> set (tracker tm_mday tm_hour)"
      using a by (simp_all add: tracker_shape)
    moreover have "length ?mem1 = 512"
      using a by (simp add: wf_eeprom_def EEPROM_size_def)
    ultimately have "length (tracker tm_mday tm_hour) \<le> 255"
      and "480 + length (tracker tm_mday tm_hour) < length ?mem1"
      by simp_all
    then show "readStringFromEEPROM 480 (eeprom (snd (httpRequest w st))) = tracker tm_mday tm_hour"
      unfolding eq using nul by (intro read_write_same)
  qed
qed


lemma write_frame:
  "off' + length s mod 256 < a \<Longrightarrow>
   EEPROM_read a (writeStringToEEPROM off' s mem) = EEPROM_read a mem"
  by (simp add: writeString_cell) (simp add: EEPROM_read_def)

lemma read_write_other:
  assumes "off' + length s mod 256 < off"
  shows "readStringFromEEPROM off (writeStringToEEPROM off' s mem) = readStringFromEEPROM off mem"
proof -
  have "\<And>a. off \<le> a \<Longrightarrow>
      EEPROM_read a (writeStringToEEPROM off' s mem) = EEPROM_read a mem"
    using assms by (intro write_frame) simp
  then show ?thesis
    by (simp add: readStringFromEEPROM_def Let_def read_loop_eq)
qed

lemma downloaded_cached_fetch: "downloaded (cached_fetch\<lparr>time_store := t\<rparr>) caching_device"
proof -
  have clock: "time_gate (cached_fetch\<lparr>time_store := t\<rparr>) = Some (5, 14)"
    by (simp add: cached_fetch_def)
  have blank: "no_watermark (eeprom caching_device)"
    by (simp add: caching_device_def boot_device_def no_watermark_fresh)
  have "fst (validTime (cached_fetch\<lparr>time_store := t\<rparr>) caching_device)"
    by (rule validTime_blank [OF clock _ _ blank]) simp_all
  then show ?thesis
    by (simp add: downloaded_def) (simp add: cached_fetch_def)
qed

theorem httpRequest_store_witness:
  "eeprom (snd (httpRequest (cached_fetch\<lparr>time_store := Some (5, 14)\<rparr>) caching_device)) =
     writeStringToEEPROM 480 (tracker 5 14)
       (writeStringToEEPROM 0 ([CHR 0x22] @ ''Q'' @ [CHR 0x22] @ '' - A'') fresh_store)
   \<and> readStringFromEEPROM 480
        (eeprom (snd (httpRequest (cached_fetch\<lparr>time_store := Some (5, 14)\<rparr>) caching_device)))
      = tracker 5 14"
proof -
  let ?w = "cached_fetch\<lparr>time_store := Some (5, 14)\<rparr>"
  have d: "downloaded ?w caching_device"
    by (rule downloaded_cached_fetch)
  have c: "settings caching_device ! 2 = 1"
    by (simp add: caching_device_def default_settings_def)
  have m: "wf_eeprom (eeprom caching_device)" "eeprom caching_device = fresh_store"
    by (simp_all add: caching_device_def boot_device_def fresh_store_def wf_eeprom_def
        EEPROM_size_def)
  have t: "time_store ?w = Some (5, 14)"
    by simp
  have q: "fst (httpRequest ?w caching_device) = [CHR 0x22] @ ''Q'' @ [CHR 0x22] @ '' - A''"
    using d by (simp add: httpRequest_fst) (simp add: cached_fetch_def getJSONQuote_def)
  note store = httpRequest_store [of ?w caching_device 5 14]
  have "eeprom (snd (httpRequest ?w caching_device)) =
     writeStringToEEPROM 480 (tracker 5 14)
       (writeStringToEEPROM 0 ([CHR 0x22] @ ''Q'' @ [CHR 0x22] @ '' - A'') fresh_store)"
    using store [THEN conjunct1] d c m t q by simp
  moreover have "readStringFromEEPROM 480 (eeprom (snd (httpRequest ?w caching_device)))
      = tracker 5 14"
    using store [THEN conjunct2] d c m(1) t by simp
  ultimately show ?thesis
    by (rule conjI)
qed

text \<open>
  C8 as it is stated fails when \<^verbatim>\<open>getLocalTime\<close> answers false after the download: the
  quote slot is written and the watermark slot is left as it was.
\<close>

theorem quote_without_watermark:
  "downloaded cached_fetch caching_device
   \<and> settings caching_device ! 2 = 1
   \<and> eeprom (snd (httpRequest cached_fetch caching_device)) =
       writeStringToEEPROM 0 ([CHR 0x22] @ ''Q'' @ [CHR 0x22] @ '' - A'') (eeprom caching_device)
   \<and> readStringFromEEPROM 480 (eeprom (snd (httpRequest cached_fetch caching_device))) =
       readStringFromEEPROM 480 (eeprom caching_device)
   \<and> no_watermark (eeprom (snd (httpRequest cached_fetch caching_device)))"
proof -
  let ?q = "[CHR 0x22] @ ''Q'' @ [CHR 0x22] @ '' - A''"
  have d: "downloaded cached_fetch caching_device"
    using downloaded_cached_fetch [of None] by (simp add: cached_fetch_def no_network_def)
  have c: "settings caching_device ! 2 = 1"
    by (simp add: caching_device_def default_settings_def)
  have q: "fst (httpRequest cached_fetch caching_device) = ?q"
    using d by (simp add: httpRequest_fst) (simp add: cached_fetch_def getJSONQuote_def)
  have keep: "\<And>b st1. validTime cached_fetch caching_device = (b, st1) \<Longrightarrow>
      eeprom st1 = eeprom caching_device \<and> settings st1 = settings caching_device"
    using validTime_keeps [of cached_fetch caching_device] by simp
  have t: "time_store cached_fetch = None"
    by (simp add: cached_fetch_def no_network_def)
  have e: "eeprom (snd (httpRequest cached_fetch caching_device)) =
      writeStringToEEPROM 0 ?q (eeprom caching_device)"
    using d c t q
    by (auto simp: httpRequest_def downloaded_def Let_def dest!: keep
        split: prod.splits http_reply.splits bool.splits)
  have r: "readStringFromEEPROM 480 (writeStringToEEPROM 0 ?q (eeprom caching_device)) =
      readStringFromEEPROM 480 (eeprom caching_device)"
    by (rule read_write_other) simp
  have "no_watermark (eeprom caching_device)"
    by (simp add: caching_device_def boot_device_def no_watermark_fresh)
  then have n: "no_watermark (writeStringToEEPROM 0 ?q (eeprom caching_device))"
    unfolding no_watermark_def r .
  show ?thesis
    using d c e r n by simp
qed

section \<open>The gesture classifier on a single press\<close>

lemma pressed_press [simp]: "pressed (press c preTime d) t \<longleftrightarrow> t < preTime + d"
  by (cases c) (simp_all add: pressed_def press_def)

lemma hold_loop_press:
  assumes "\<forall>u. held u \<longleftrightarrow> u < preTime + d"
    and "preTime \<le> t" "t \<le> preTime + d" "t \<le> preTime + T + 1"
  shows "hold_loop held preTime T t =
           (if d \<le> T + 1 then Released (preTime + d) else Long (preTime + T + 1))"
  using assms
proof (induction held preTime T t rule: hold_loop.induct)
  case (1 held preTime T t)
  then have held: "\<And>u. held u \<longleftrightarrow> u < preTime + d"
    by simp
  show ?case
  proof (cases "t < preTime + d")
    case False
    then have "t = preTime + d" "d \<le> T + 1"
      using "1.prems" by simp_all
    then show ?thesis
      by (subst hold_loop.simps) (simp add: held)
  next
    case True
    show ?thesis
    proof (cases "t - preTime > T")
      case over: True
      then have "t = preTime + T + 1" "\<not> d \<le> T + 1"
        using "1.prems" True by simp_all
      then show ?thesis
        using True by (subst hold_loop.simps) (simp add: held)
    next
      case False
      then have next_ok: "preTime \<le> t + 1" "t + 1 \<le> preTime + d" "t + 1 \<le> preTime + T + 1"
        using "1.prems" True by simp_all
      have step: "hold_loop held preTime T t = hold_loop held preTime T (t + 1)"
        using True False by (subst hold_loop.simps) (simp add: held)
      have held_t: "held t"
        using True by (simp add: held)
      have ih: "hold_loop held preTime T (t + 1) =
          (if d \<le> T + 1 then Released (preTime + d) else Long (preTime + T + 1))"
        by (rule "1.IH" [OF held_t False "1.prems"(1) next_ok])
      show ?thesis
        unfolding step ih ..
    qed
  qed
qed

lemma wait_release_done: "\<not> pressed bt t \<Longrightarrow> wait_release step bt t = Some t"
  by (subst wait_release.simps) simp

lemma wait_release_press:
  assumes "0 < step"
  shows "\<exists>t'. wait_release step (press c preTime d) t = Some t'"
proof (induction "preTime + d - t" arbitrary: t rule: less_induct)
  case less
  show ?case
  proof (cases "t < preTime + d")
    case False
    then show ?thesis
      by (simp add: wait_release_done)
  next
    case True
    then have "preTime + d - (t + step) < preTime + d - t"
      using assms by simp
    then obtain t' where "wait_release step (press c preTime d) (t + step) = Some t'"
      using less by blast
    then show ?thesis
      using True by (subst wait_release.simps) simp
  qed
qed


lemma long_wait_forced:
  assumes "\<forall>u. pressed bt u \<longleftrightarrow> u < preTime + d"
    and "T3 \<le> d" and "preTime \<le> t" and "t - preTime \<le> T3" and "odd (t - preTime + T3)"
  shows "\<exists>t'. long_wait bt preTime T3 t = Forced t'"
  using assms
proof (induction bt preTime T3 t rule: long_wait.induct)
  case (1 bt preTime T3 t)
  have "t - preTime \<noteq> T3"
  proof
    assume "t - preTime = T3"
    then have "t - preTime + T3 = 2 * T3" by simp
    then show False using "1.prems"(5) by simp
  qed
  then have "t - preTime < T3"
    using "1.prems"(4) by simp
  then have "t < preTime + d"
    using "1.prems"(2,3) by simp
  then have held: "pressed bt t"
    using "1.prems"(1) by simp
  show ?case
  proof (cases "(t + 100) - preTime > T3")
    case True
    have "long_wait bt preTime T3 t = Forced (t + 100)"
      by (subst long_wait.simps) (simp only: held True if_True)
    then show ?thesis by blast
  next
    case False
    have eq: "t + 100 - preTime + T3 = (t - preTime + T3) + 100"
      using "1.prems"(3) by simp
    have "odd (t + 100 - preTime + T3)"
      unfolding eq using "1.prems"(5) by simp
    moreover have "preTime \<le> t + 100" "t + 100 - preTime \<le> T3"
      using "1.prems"(3) False by simp_all
    ultimately have "\<exists>t'. long_wait bt preTime T3 (t + 100) = Forced t'"
      by (intro "1.IH" [OF held False "1.prems"(1,2)])
    moreover have "long_wait bt preTime T3 t = long_wait bt preTime T3 (t + 100)"
      by (subst long_wait.simps) (simp only: held False if_True if_False)
    ultimately show ?thesis by simp
  qed
qed


lemma to_unsigned_nat: "0 \<le> i \<Longrightarrow> i < 2 ^ 32 \<Longrightarrow> to_unsigned i = nat i"
  by (simp add: to_unsigned_def)

lemma press_branch_press:
  assumes held: "\<forall>u. held u \<longleftrightarrow> u < preTime + d"
    and T: "0 \<le> cfg ! 10" "cfg ! 10 < 2 ^ 32"
  shows "press_branch held long short cfg (press c preTime d) preTime =
     (if d \<le> nat (cfg ! 10) + 1 then
        (if d < nat (cfg ! 10) then Some (Dispatch short, False, preTime + d)
         else Some (NoAction, False, preTime + d))
      else
        (case long_wait (press c preTime d) preTime (to_unsigned (cfg ! 10 * 3))
                (preTime + nat (cfg ! 10) + 1) of
           Forced t' \<Rightarrow> Some (ForceSleep, True, t')
         | Let_go t' \<Rightarrow> Some (Dispatch long, False, t')))"
proof -
  have u: "to_unsigned (cfg ! 10) = nat (cfg ! 10)"
    using T by (rule to_unsigned_nat)
  have h: "hold_loop held preTime (nat (cfg ! 10)) preTime =
      (if d \<le> nat (cfg ! 10) + 1 then Released (preTime + d)
       else Long (preTime + nat (cfg ! 10) + 1))"
    using held by (rule hold_loop_press) simp_all
  have w: "wait_release 100 (press c preTime d) (preTime + d) = Some (preTime + d)"
    by (rule wait_release_done) simp
  show ?thesis
    unfolding press_branch_def u h by (simp add: w)
qed

lemma handle_press_eq:
  assumes "0 \<le> cfg ! 10" "cfg ! 10 < 2 ^ 32"
  shows "handle_press cfg c preTime d =
     (if d \<le> nat (cfg ! 10) + 1 then
        (if d < nat (cfg ! 10) then Some (Dispatch (short_of c), False, preTime + d)
         else Some (NoAction, False, preTime + d))
      else
        (case long_wait (press c preTime d) preTime (to_unsigned (cfg ! 10 * 3))
                (preTime + nat (cfg ! 10) + 1) of
           Forced t' \<Rightarrow> Some (ForceSleep, True, t')
         | Let_go t' \<Rightarrow> Some (Dispatch (long_of c), False, t')))"
proof (cases c)
  case Only1
  have "\<forall>u. level1 (press Only1 preTime d) u \<longleftrightarrow> u < preTime + d"
    by (simp add: press_def)
  then show ?thesis
    unfolding handle_press_def buttonHandler_def Only1
    using press_branch_press [OF _ assms, of "level1 (press Only1 preTime d)" preTime d]
    by (simp add: short_of_def long_of_def split: long_end.splits)
next
  case Only2
  have "\<forall>u. level2 (press Only2 preTime d) u \<longleftrightarrow> u < preTime + d"
    by (simp add: press_def)
  then show ?thesis
    unfolding handle_press_def buttonHandler_def Only2
    using press_branch_press [OF _ assms, of "level2 (press Only2 preTime d)" preTime d]
    by (simp add: short_of_def long_of_def split: long_end.splits)
next
  case Both
  have "\<forall>u. (level1 (press Both preTime d) u \<and> level2 (press Both preTime d) u)
      \<longleftrightarrow> u < preTime + d"
    by (simp add: press_def)
  then show ?thesis
    unfolding handle_press_def buttonHandler_def Both
    using press_branch_press [OF _ assms,
        of "\<lambda>t. level1 (press Both preTime d) t \<and> level2 (press Both preTime d) t" preTime d]
    by (simp add: short_of_def long_of_def split: long_end.splits)
qed

text \<open>
  C5, as amended. With a threshold that is not negative, a hold shorter than the
  threshold ends in the short-press function of the combination, called when the hold
  ends. The long-press function or the forced sleep is reached only by a hold longer than
  the threshold.
\<close>

theorem short_below_threshold:
  assumes "0 \<le> cfg ! 10" and "cfg ! 10 < 2 ^ 31"
  shows "(d < nat (cfg ! 10) \<longrightarrow>
            handle_press cfg c preTime d = Some (Dispatch (short_of c), False, preTime + d))
       \<and> (\<forall>t. handle_press cfg c preTime d = Some (Dispatch (long_of c), False, t)
              \<or> handle_press cfg c preTime d = Some (ForceSleep, True, t)
            \<longrightarrow> nat (cfg ! 10) < d)"
proof -
  have T: "0 \<le> cfg ! 10" "cfg ! 10 < 2 ^ 32"
    using assms by simp_all
  have "short_of c \<noteq> long_of c"
    by (cases c) (simp_all add: short_of_def long_of_def)
  then show ?thesis
    unfolding handle_press_eq [OF T]
    by (auto split: long_end.splits if_splits)
qed

theorem short_below_threshold_witness:
  "handle_press default_settings Only2 0 999 = Some (Dispatch Run_button2, False, 999)
   \<and> handle_press default_settings Only2 0 4000 = Some (ForceSleep, True, 3001)
   \<and> (1000::nat) < 4000"
proof -
  have T: "0 \<le> default_settings ! 10" "default_settings ! 10 < 2 ^ 31"
    by (simp_all add: default_settings_def)
  have T': "0 \<le> default_settings ! 10" "default_settings ! 10 < 2 ^ 32"
    by (simp_all add: default_settings_def)
  have n: "nat (default_settings ! 10) = 1000" "to_unsigned (default_settings ! 10 * 3) = 3000"
    by (simp_all add: default_settings_def to_unsigned_def)
  have short: "handle_press default_settings Only2 0 999 = Some (Dispatch Run_button2, False, 999)"
    using short_below_threshold [OF T, of 999 Only2 0]
    unfolding n by (simp add: short_of_def)
  have w: "long_wait (press Only2 0 4000) 0 3000 1001 = Forced 3001"
    by (simp add: long_wait.simps)
  have forced: "handle_press default_settings Only2 0 4000 = Some (ForceSleep, True, 3001)"
    unfolding handle_press_eq [OF T'] n using w by simp
  then have "nat (default_settings ! 10) < 4000"
    using short_below_threshold [OF T, of 4000 Only2 0] by blast
  then have "(1000::nat) < 4000"
    unfolding n .
  with short forced show ?thesis by simp
qed

text \<open>
  C5 as it is stated fails for a hold of exactly the threshold: with the threshold 1000
  and a hold of 1000 ms the handler runs neither the short nor the long function, for
  any of the three combinations.
\<close>

theorem hold_at_threshold_no_event:
  "handle_press default_settings Only1 0 1000 = Some (NoAction, False, 1000)
   \<and> handle_press default_settings Only2 0 1000 = Some (NoAction, False, 1000)
   \<and> handle_press default_settings Both 0 1000 = Some (NoAction, False, 1000)"
proof -
  have T: "0 \<le> default_settings ! 10" "default_settings ! 10 < 2 ^ 32"
    by (simp_all add: default_settings_def)
  have n: "nat (default_settings ! 10) = 1000"
    by (simp add: default_settings_def)
  show ?thesis
    unfolding handle_press_eq [OF T] n by simp
qed

text \<open>
  C6, as amended. With a positive threshold whose triple fits an \<^verbatim>\<open>int\<close>, a hold of three times the
  threshold or more, of any combination, makes \<open>buttonHandler\<close> set \<^verbatim>\<open>sleepCom\<close> and
  return without calling the long-press function, and the pass of the loop in \<^verbatim>\<open>setup\<close>
  that called it ends in the sleep sequence.
\<close>

theorem force_sleep:
  assumes "0 < cfg ! 10" and "cfg ! 10 * 3 < 2 ^ 31" and "nat (cfg ! 10 * 3) \<le> d"
  shows "(\<exists>t. handle_press cfg c preTime d = Some (ForceSleep, True, t))
       \<and> setup_pass cfg (press c preTime d) lastContact preTime = Some Sleeping"
proof -
  let ?T = "nat (cfg ! 10)"
  have T: "0 \<le> cfg ! 10" "cfg ! 10 < 2 ^ 32"
    using assms(1,2) by simp_all
  have T3: "to_unsigned (cfg ! 10 * 3) = 3 * ?T"
    using assms(1,2) by (simp add: to_unsigned_def nat_mult_distrib)
  have pos: "0 < ?T" and d: "3 * ?T \<le> d"
    using assms(1,3) by (simp_all add: nat_mult_distrib)
  have long: "\<not> d \<le> ?T + 1"
    using pos d by simp
  have "\<exists>t'. long_wait (press c preTime d) preTime (3 * ?T) (preTime + ?T + 1) = Forced t'"
  proof (rule long_wait_forced)
    show "\<forall>u. pressed (press c preTime d) u \<longleftrightarrow> u < preTime + d" by simp
    show "3 * ?T \<le> d" by (rule d)
    show "preTime \<le> preTime + ?T + 1" by simp
    show "preTime + ?T + 1 - preTime \<le> 3 * ?T" using pos by simp
    have "preTime + ?T + 1 - preTime + 3 * ?T = 2 * (2 * ?T) + 1" by simp
    then show "odd (preTime + ?T + 1 - preTime + 3 * ?T)" by simp
  qed
  then obtain t' where
    forced: "long_wait (press c preTime d) preTime (3 * ?T) (preTime + ?T + 1) = Forced t'"
    by blast
  have h: "handle_press cfg c preTime d = Some (ForceSleep, True, t')"
    unfolding handle_press_eq [OF T] T3 using long forced by simp
  have dpos: "0 < d"
    using pos d by simp
  have levels: "level1 (press c preTime d) preTime = (c \<noteq> Only2)"
    "level2 (press c preTime d) preTime = (c \<noteq> Only1)"
    using dpos by (simp_all add: press_def)
  obtain t'' where "wait_release 50 (press c preTime d) (t' + 150) = Some t''"
    using wait_release_press [of 50 c preTime d "t' + 150"] by auto
  then have sleep: "sleep_sequence (press c preTime d) (t' + 150) = Some Sleeping"
    by (simp add: sleep_sequence_def)
  have "buttonHandler cfg (press c preTime d) preTime (c \<noteq> Only2) (c \<noteq> Only1)
      = Some (ForceSleep, True, t')"
    using h by (simp add: handle_press_def)
  then have "setup_pass cfg (press c preTime d) lastContact preTime = Some Sleeping"
    unfolding setup_pass_def levels Let_def
    using sleep by (cases c) simp_all
  with h show ?thesis by blast
qed

theorem force_sleep_witness:
  "(\<exists>t. handle_press default_settings Both 0 4000 = Some (ForceSleep, True, t))
   \<and> setup_pass default_settings (press Both 0 4000) 0 0 = Some Sleeping"
proof -
  have a: "0 < default_settings ! 10" "default_settings ! 10 * 3 < 2 ^ 31"
    "nat (default_settings ! 10 * 3) \<le> 4000"
    by (simp_all add: default_settings_def)
  show ?thesis
    by (rule force_sleep [OF a])
qed

text \<open>
  C6 as it is stated fails for the threshold 0. A hold of 1 ms is then a hold of three
  times the threshold or more, yet neither the long test nor the short test passes:
  \<^verbatim>\<open>sleepCom\<close> stays false and the loop in \<^verbatim>\<open>setup\<close> goes round again.
\<close>

theorem zero_threshold_no_sleep:
  "nat (zero_threshold ! 10 * 3) \<le> 1
   \<and> handle_press zero_threshold Only1 0 1 = Some (NoAction, False, 1)
   \<and> handle_press zero_threshold Only2 0 1 = Some (NoAction, False, 1)
   \<and> handle_press zero_threshold Both 0 1 = Some (NoAction, False, 1)
   \<and> setup_pass zero_threshold (press Both 0 1) 0 0 = Some Running"
proof -
  have T: "0 \<le> zero_threshold ! 10" "zero_threshold ! 10 < 2 ^ 32"
    by (simp_all add: zero_threshold_def)
  have n: "nat (zero_threshold ! 10) = 0" "nat (zero_threshold ! 10 * 3) \<le> 1"
    by (simp_all add: zero_threshold_def)
  have h: "handle_press zero_threshold c 0 1 = Some (NoAction, False, 1)" for c
    unfolding handle_press_eq [OF T] n by simp
  have "buttonHandler zero_threshold (press Both 0 1) 0 True True = Some (NoAction, False, 1)"
    using h [of Both] by (simp add: handle_press_def)
  then have "setup_pass zero_threshold (press Both 0 1) 0 0 = Some Running"
    by (simp add: setup_pass_def Let_def press_def)
  with h n(2) show ?thesis by simp
qed

section \<open>Connectivity and the acquisition\<close>


lemma wifi_wait_never:
  assumes "timeout < 2 ^ 32 - 1" and "\<forall>e. \<not> connected e"
  shows "e \<le> timeout + 1 \<Longrightarrow> wifi_wait connected timeout e = Some False"
proof (induction "timeout + 1 - e" arbitrary: e rule: less_induct)
  case less
  have small: "e mod 2 ^ 32 = e"
    using less.prems assms(1) by simp
  show ?case
  proof (cases "e > timeout")
    case True
    then show ?thesis
      using assms(2) small by (subst wifi_wait.simps) simp
  next
    case False
    then have "timeout + 1 - (e + 1) < timeout + 1 - e" "e + 1 \<le> timeout + 1"
      by simp_all
    then have "wifi_wait connected timeout (e + 1) = Some False"
      using less.hyps by blast
    then show ?thesis
      using assms(2) False small by (subst wifi_wait.simps) simp
  qed
qed

lemma wifi_wait_hangs:
  assumes "\<forall>e. \<not> connected e"
  shows "wifi_wait connected (2 ^ 32 - 1) e = None"
proof (cases "wifi_wait connected (2 ^ 32 - 1) e")
  case None
  then show ?thesis .
next
  case (Some b)
  have "(\<forall>e. \<not> connected e) \<longrightarrow> (2 ^ 32 - 1 :: nat) = 2 ^ 32 - 1 \<longrightarrow> False"
  proof (rule wifi_wait.raw_induct
      [where P = "\<lambda>c t e b. (\<forall>e. \<not> c e) \<longrightarrow> t = 2 ^ 32 - 1 \<longrightarrow> False", OF _ Some])
    fix f :: "(nat \<Rightarrow> bool) \<Rightarrow> nat \<Rightarrow> nat \<Rightarrow> bool option" and c t e b
    assume IH: "\<And>c t e b. f c t e = Some b \<Longrightarrow> (\<forall>e. \<not> c e) \<longrightarrow> t = 2 ^ 32 - 1 \<longrightarrow> False"
      and step: "(if c e then Some True else if e mod 2 ^ 32 > t then Some False
                  else f c t (e + 1)) = Some b"
    show "(\<forall>e. \<not> c e) \<longrightarrow> t = 2 ^ 32 - 1 \<longrightarrow> False"
    proof (intro impI)
      assume never: "\<forall>e. \<not> c e" and t: "t = 2 ^ 32 - 1"
      have "e mod 2 ^ 32 < (2 ^ 32 :: nat)" by simp
      then have "\<not> e mod 2 ^ 32 > t"
        using t by simp
      then have "f c t (e + 1) = Some b"
        using step never by simp
      then show False
        using IH never t by blast
    qed
  qed
  then show ?thesis
    using assms by simp
qed


lemma timeout_small: "0 \<le> i \<Longrightarrow> i < 2 ^ 31 \<Longrightarrow> to_unsigned i < 2 ^ 32 - 1"
  by (simp add: to_unsigned_def)

lemma tryWifi_SomeD:
  assumes "tryWifi w login st = Some (b, st1)"
  shows "settings st1 = settings st" and "eeprom st1 = eeprom st"
  using assms by (auto simp: tryWifi_def Let_def split: option.splits bool.splits)


lemma tryWifi_no_join:
  assumes "0 \<le> settings st ! 0" and "settings st ! 0 < 2 ^ 31"
    and "\<forall>l e. \<not> wifi_join w l e"
  shows "\<exists>st1. tryWifi w login st = Some (False, st1)"
proof -
  have "wifi_wait (wifi_join w l) (to_unsigned (settings st ! 0)) 0 = Some False" for l
    using wifi_wait_never [OF timeout_small [OF assms(1,2)], of "wifi_join w l" 0] assms(3)
    by simp
  then show ?thesis
    by (simp add: tryWifi_def Let_def)
qed


lemma bootWiFi_loop_no_join:
  assumes "0 \<le> settings st ! 0" and "settings st ! 0 < 2 ^ 31"
    and "\<forall>l e. \<not> wifi_join w l e"
  shows "\<exists>l st1. bootWiFi_loop w cs comment line st = Some (False, l, st1)
           \<and> settings st1 = settings st \<and> eeprom st1 = eeprom st"
  using assms(1,2)
proof (induction cs arbitrary: comment line st)
  case Nil
  show ?case by auto
next
  case (Cons cur rest)
  show ?case
  proof (cases "(\<not> comment \<and> cur = CHR 0x0A) \<and> length line \<ge> 1")
    case True
    obtain st1 where t: "tryWifi w line st = Some (False, st1)"
      using tryWifi_no_join [OF Cons.prems assms(3)] by blast
    then have keep: "settings st1 = settings st" "eeprom st1 = eeprom st"
      by (rule tryWifi_SomeD)+
    have "\<exists>l st2. bootWiFi_loop w rest True (collect True cur []) st1 = Some (False, l, st2)
           \<and> settings st2 = settings st1 \<and> eeprom st2 = eeprom st1"
      using Cons.prems keep by (intro Cons.IH) simp_all
    then show ?thesis
      using True t keep by auto
  next
    case False
    then show ?thesis
      using Cons.IH [OF Cons.prems] by auto
  qed
qed


lemma bootWiFi_no_join:
  assumes "0 \<le> settings st ! 0" and "settings st ! 0 < 2 ^ 31"
    and "\<forall>l e. \<not> wifi_join w l e"
  shows "\<exists>st'. bootWiFi w st = Some st'
           \<and> settings st' = (settings st)[1 := 2] \<and> eeprom st' = eeprom st"
proof (cases "sd_open w ''/resources/logins.txt''")
  case None
  then show ?thesis
    by (simp add: bootWiFi_def offline_def)
next
  case (Some logins)
  obtain l st1 where loop: "bootWiFi_loop w logins True [] st = Some (False, l, st1)"
    and keep: "settings st1 = settings st" "eeprom st1 = eeprom st"
    using bootWiFi_loop_no_join [OF assms] by blast
  have ok1: "0 \<le> settings st1 ! 0" "settings st1 ! 0 < 2 ^ 31"
    using assms(1,2) keep by simp_all
  obtain st2 where t: "tryWifi w l st1 = Some (False, st2)"
    using tryWifi_no_join [OF ok1 assms(3), of l] by blast
  then have keep2: "settings st2 = settings st" "eeprom st2 = eeprom st"
    using keep tryWifi_SomeD by metis+
  show ?thesis
    using Some loop keep t keep2 by (auto simp: bootWiFi_def offline_def)
qed

lemma wifi_wait_const: "wifi_wait (\<lambda>e. True) 0 0 = Some True" "wifi_wait (\<lambda>e. False) 0 0 = Some False"
proof -
  show "wifi_wait (\<lambda>e. True) 0 0 = Some True"
    by (subst wifi_wait.simps) simp
  show "wifi_wait (\<lambda>e. False) 0 0 = Some False"
    by (rule wifi_wait_never) simp_all
qed

lemma char_of_byte_FF [simp]: "char_of_byte 0xFF = CHR 0xFF"
  by code_simp

lemma fresh_slot_not_text:
  assumes "c \<in> set s" and "c \<noteq> CHR 0x00" and "c \<noteq> CHR 0xFF"
  shows "readStringFromEEPROM off fresh_store \<noteq> s"
proof
  assume "readStringFromEEPROM off fresh_store = s"
  then have "c \<in> set (readStringFromEEPROM off fresh_store)"
    using assms(1) by simp
  then have "c \<in> char_of_byte ` insert 0 (set fresh_store)"
    by (rule readString_chars)
  then have "c = char_of_byte 0 \<or> c = char_of_byte 0xFF"
    by (auto simp: fresh_store_def)
  then show False
    using assms(2,3) by auto
qed

text \<open>
  C7. With the logins A, B, C in the file and a network that only C joins, \<open>bootWiFi\<close>
  tries A, then B, then C, and is connected. When the line of C ends the file without a
  newline, the store is left as it was and the credential slot at offset 400 does not
  read C. With a newline after C the slot is written.
\<close>

theorem last_login_not_persisted:
  "map_option attempts (bootWiFi (only_C logins_ABC) boot_device) = Some [''A@1'', ''B@2'', ''C@3'']
   \<and> map_option wifiStatus (bootWiFi (only_C logins_ABC) boot_device) = Some True
   \<and> map_option eeprom (bootWiFi (only_C logins_ABC) boot_device) = Some (eeprom boot_device)
   \<and> map_option (\<lambda>st. readStringFromEEPROM 400 (eeprom st))
        (bootWiFi (only_C logins_ABC) boot_device) \<noteq> Some ''C@3''
   \<and> map_option attempts (bootWiFi (only_C (logins_ABC @ [CHR 0x0A])) boot_device)
        = Some [''A@1'', ''B@2'', ''C@3'']
   \<and> map_option eeprom (bootWiFi (only_C (logins_ABC @ [CHR 0x0A])) boot_device)
        = Some (writeStringToEEPROM 400 ''C@3'' (eeprom boot_device))"
proof -
  have run: "map_option attempts (bootWiFi (only_C logins_ABC) boot_device) = Some [''A@1'', ''B@2'', ''C@3'']
   \<and> map_option wifiStatus (bootWiFi (only_C logins_ABC) boot_device) = Some True
   \<and> map_option eeprom (bootWiFi (only_C logins_ABC) boot_device) = Some (eeprom boot_device)
   \<and> map_option attempts (bootWiFi (only_C (logins_ABC @ [CHR 0x0A])) boot_device)
        = Some [''A@1'', ''B@2'', ''C@3'']
   \<and> map_option eeprom (bootWiFi (only_C (logins_ABC @ [CHR 0x0A])) boot_device)
        = Some (writeStringToEEPROM 400 ''C@3'' (eeprom boot_device))"
    by (simp add: bootWiFi_def only_C_def logins_ABC_def no_network_def boot_device_def
      default_settings_def tryWifi_def Let_def indexOf_def substring_def substring_from_def
      to_unsigned_def collect_def login_char_def wifi_wait_const)
  have "readStringFromEEPROM 400 fresh_store \<noteq> ''C@3''"
    by (rule fresh_slot_not_text [of "CHR ''C''"]) simp_all
  then have "map_option (\<lambda>st. readStringFromEEPROM 400 (eeprom st))
        (bootWiFi (only_C logins_ABC) boot_device) \<noteq> Some ''C@3''"
    using run by (auto simp: boot_device_def)
  with run show ?thesis by simp
qed

lemma httpRequest_settings [simp]: "settings (snd (httpRequest w st)) = settings st"
proof -
  have keep: "\<And>b st1. validTime w st = (b, st1) \<Longrightarrow> settings st1 = settings st"
    using validTime_keeps(2) [of w st] by simp
  show ?thesis
    by (auto simp: httpRequest_def Let_def dest!: keep
        split: prod.splits http_reply.splits option.splits bool.splits)
qed


lemma button1_fetch_settings [simp]: "settings (snd (button1_fetch w st)) = settings st"
  by (simp add: button1_fetch_def)

lemma error_text_prefix: "substring error_text 0 6 = ''Error.''"
  by (simp add: substring_def error_text_def)

lemma button1_fetch_failed:
  assumes "\<not> (c_mod (settings st ! 1) 2 = 1 \<and> downloaded w st)"
  shows "substring (fst (button1_fetch w st)) 0 6 = ''Error.''"
proof (cases "c_mod (settings st ! 1) 2 = 1")
  case True
  then have "fst (button1_fetch w st) = error_text"
    using assms by (simp add: button1_fetch_def httpRequest_fst)
  then show ?thesis
    by (simp add: error_text_prefix)
next
  case False
  then show ?thesis
    by (simp add: button1_fetch_def substring_def)
qed




lemma button1_Some:
  "button1_connect w st = Some st1 \<Longrightarrow>
   button1 w st = Some (button1_select w (fst (button1_fetch w st1)) (snd (button1_fetch w st1)))"
  by (simp add: button1_def split: prod.splits)



lemma c_mod_2 [simp]: "c_mod 1 2 = 1" "c_mod 2 2 = 0" "c_mod 3 2 = 1" "c_mod 4 2 = 0"
  by (simp_all add: c_mod_def)

lemma fixture_simps [simp]:
  "settings boot_device = default_settings"
  "wifiStatus boot_device = False"
  "eeprom boot_device = fresh_store"
  "settings standard_device = [0, 1, 1, 30, 7, 8, 7, 7, - 8, 1, 1000]"
  "wifiStatus standard_device = False"
  "eeprom standard_device = fresh_store"
  "settings (stale_device mode) = [0, mode, 1, 30, 0, 0, 7, 7, - 8, 1, 1000]"
  "wifiStatus (stale_device mode) = False"
  "eeprom (stale_device mode) = writeStringToEEPROM 0 ''Old'' fresh_store"
  "settings connected_device = [0, 1, 1, 30, 7, 8, 7, 7, - 8, 1, 1000]"
  "wifiStatus connected_device = True"
  "eeprom connected_device = replicate 512 0"
  by (simp_all add: boot_device_def standard_device_def stale_device_def connected_device_def)

lemma no_join [simp]: "\<not> wifi_join no_network l e" "\<not> wifi_join hello_card l e"
  by (simp_all add: hello_card_def no_network_def)








text \<open>
  C9. Mode 1, caching on, the index range 7 to 8, a join timeout that is not negative,
  no network to join or to use, and ``Hello'' in quote file 7: \<open>button1\<close> returns
  ``Hello'', and afterwards the quote slot of the store reads ``Hello''. What the store
  held before does not matter.
\<close>

theorem button1_hello:
  assumes cfg: "length (settings st) = 11" "settings st ! 1 = 1" "settings st ! 2 = 1"
      "settings st ! 4 = 7" "settings st ! 5 = 8"
    and timeout: "0 \<le> settings st ! 0" "settings st ! 0 < 2 ^ 31"
    and store: "wf_eeprom (eeprom st)"
    and net: "\<forall>l e. \<not> wifi_join w l e" "\<not> wifi_run w"
    and card: "sd_open w ''/quotes/7.txt'' = Some ''Hello''"
  shows "\<exists>st'. button1 w st = Some (''Hello'', st')
           \<and> readStringFromEEPROM 0 (eeprom st') = ''Hello''"
proof -
  have "\<exists>st1. button1_connect w st = Some st1
      \<and> (settings st1 = settings st \<or> settings st1 = (settings st)[1 := 2])
      \<and> eeprom st1 = eeprom st"
  proof (cases "c_mod (settings st ! 1) 2 = 1 \<and> \<not> wifiStatus st")
    case True
    obtain st' where "bootWiFi w st = Some st'" "settings st' = (settings st)[1 := 2]"
      "eeprom st' = eeprom st"
      using bootWiFi_no_join [OF timeout net(1)] by blast
    then show ?thesis
      using True by (auto simp: button1_connect_def)
  next
    case False
    then show ?thesis
      by (auto simp: button1_connect_def)
  qed
  then obtain st1 where c: "button1_connect w st = Some st1"
    and s1: "settings st1 = settings st \<or> settings st1 = (settings st)[1 := 2]"
    and e1: "eeprom st1 = eeprom st"
    by blast
  have nd: "\<not> downloaded w st1"
    using net(2) by (simp add: downloaded_def)
  have f: "snd (button1_fetch w st1) = st1"
    using net(2) by (simp add: button1_fetch_def httpRequest_def)
  have err: "substring (fst (button1_fetch w st1)) 0 6 = ''Error.''"
    using nd by (intro button1_fetch_failed) simp
  have mode: "\<not> settings st1 ! 1 \<ge> 3" and c2: "settings st1 ! 2 = 1"
    and r: "settings st1 ! 4 = 7" "settings st1 ! 5 = 8"
    using s1 cfg by auto
  have "String_int 7 = ''7''" by code_simp
  then have path: "quote_path w (settings st1) = ''/quotes/7.txt''"
    by (simp add: quote_path_def r random_def)
  have "button1 w st = Some (getRandSD w st1)"
    unfolding button1_Some [OF c] f using mode err by (simp add: button1_select_def)
  then have b: "button1 w st =
      Some (''Hello'', st1\<lparr>eeprom := writeStringToEEPROM 0 ''Hello'' (eeprom st)\<rparr>)"
    by (simp add: getRandSD_def path card c2 e1)
  have "readStringFromEEPROM 0 (writeStringToEEPROM 0 ''Hello'' (eeprom st)) = ''Hello''"
    using store by (intro read_write_same) (simp_all add: wf_eeprom_def EEPROM_size_def)
  then show ?thesis
    by (simp add: b)
qed

theorem button1_hello_witness:
  "\<exists>st'. button1 hello_card standard_device = Some (''Hello'', st')
         \<and> readStringFromEEPROM 0 (eeprom st') = ''Hello''"
proof -
  have cfg: "length (settings standard_device) = 11" "settings standard_device ! 1 = 1"
      "settings standard_device ! 2 = 1" "settings standard_device ! 4 = 7"
      "settings standard_device ! 5 = 8"
    by simp_all
  have timeout: "0 \<le> settings standard_device ! 0" "settings standard_device ! 0 < 2 ^ 31"
    by simp_all
  have store: "wf_eeprom (eeprom standard_device)"
    by (simp add: fresh_store_def wf_eeprom_def EEPROM_size_def)
  have net: "\<forall>l e. \<not> wifi_join hello_card l e" "\<not> wifi_run hello_card"
    by (simp_all add: hello_card_def no_network_def)
  have card: "sd_open hello_card ''/quotes/7.txt'' = Some ''Hello''"
    by (simp add: hello_card_def)
  show ?thesis
    by (rule button1_hello [OF cfg timeout store net card])
qed

end
